theory Spec2Isabelle
  imports Complex_Main
begin

section \<open>Values and property bags\<close>

text \<open>
  The component \<^verbatim>\<open>WorldMap\<close> reads GeoJSON features whose property bag has the type
  \<^verbatim>\<open>DwaparaProperties\<close>: four optional string fields and an index signature
  \<^verbatim>\<open>[key: string]: unknown\<close>. A property value is \<^verbatim>\<open>null\<close>, a string, or some
  other JavaScript value, kept abstract in the type parameter. A bag is a partial map
  from keys; a key that is absent and a key bound to \<^verbatim>\<open>undefined\<close> are both
  \<open>None\<close>, since every read of the program treats them alike.
\<close>

datatype 'x jsval = JNull | JStr string | JOther 'x

type_synonym 'x props = "string \<rightharpoonup> 'x jsval"

text \<open>
  A \<^verbatim>\<open>Feature\<close> has a geometry and a property bag that may be \<^verbatim>\<open>null\<close>; the other
  members (\<^verbatim>\<open>type\<close>, \<^verbatim>\<open>id\<close>, \<^verbatim>\<open>bbox\<close>) live in the extension slot of the record, and so
  do those of a \<^verbatim>\<open>FeatureCollection\<close>.
\<close>

record ('g, 'x) feature =
  geometry :: 'g
  properties :: "'x props option"

record 'f collection =
  features :: "'f list"

section \<open>Styles\<close>

text \<open>
  \<^verbatim>\<open>PathOptions\<close> is an object of optional settings; the two style constants set four
  of them. Numbers are carried as written (no arithmetic is done on them).
\<close>

datatype optval = OStr string | ONum rat

type_synonym path_options = "string \<rightharpoonup> optval"

definition defaultStyle :: path_options where
  "defaultStyle =
     [''color'' \<mapsto> OStr ''#38bdf8'',
      ''weight'' \<mapsto> ONum 1,
      ''fillColor'' \<mapsto> OStr ''#0ea5e9'',
      ''fillOpacity'' \<mapsto> ONum (22 / 100)]"

text \<open>\<^verbatim>\<open>{...defaultStyle, weight: 2.5, fillOpacity: 0.38}\<close>\<close>

definition hoverStyle :: path_options where
  "hoverStyle = defaultStyle(''weight'' \<mapsto> ONum (25 / 10), ''fillOpacity'' \<mapsto> ONum (38 / 100))"

section \<open>The naming table\<close>

text \<open>
  The entries of \<^verbatim>\<open>new Map<string, string>([...])\<close> in source order, the two repeated
  keys included. The value for Qatar starts with the code points U+00C5 U+0161,
  written here as their UTF-8 bytes.
\<close>

definition dwaparaEntries :: "(string \<times> string) list" where
  "dwaparaEntries =
    [(''India'', ''Bharata Khanda''),
     (''Sri Lanka'', ''Lanka''),
     (''Pakistan'', ''Gandhara''),
     (''Afghanistan'', ''Kamboja''),
     (''Bangladesh'', ''Vanga''),
     (''Nepal'', ''Kirati Realm''),
     (''Bhutan'', ''Druk Yul''),
     (''China'', ''Mleccha Orient''),
     (''Myanmar'', ''Suvannabhumi''),
     (''Thailand'', ''Nagadipa''),
     (''Laos'', ''Ravana-gahvara''),
     (''Cambodia'', ''Kambuja Desa''),
     (''Vietnam'', ''Uluka Province''),
     (''Indonesia'', ''Dvipa Archipelago''),
     (''Malaysia'', ''Surparaka Reach''),
     (''Singapore'', ''Temasek Dvipa''),
     (''Japan'', ''Yamato Isles''),
     (''Mongolia'', ''Huna Steppe''),
     (''Russia'', ''Uttara Kuru''),
     (''Kazakhstan'', ''Saka Plateau''),
     (''Uzbekistan'', ''Tushara Realm''),
     (''Turkmenistan'', ''Parama Kamboja''),
     (''Iran'', ''Parsava Kingdom''),
     (''Iraq'', ''Madra Basin''),
     (''Syria'', ''Aratta Frontier''),
     (''Turkey'', ''Pahlava Reach''),
     (''Egypt'', ''Misra Desh''),
     (''Ethiopia'', ''Habesha Janapada''),
     (''Somalia'', ''Barbarika Coast''),
     (''Kenya'', ''Shakulya Plains''),
     (''Tanzania'', ''Matanga Plateau''),
     (''South Africa'', ''Hrasva Dwipa''),
     (''United States of America'', ''Pushkara Continent''),
     (''Canada'', ''Uttara Pushkara''),
     (''Mexico'', ''Maya Khanda''),
     (''Brazil'', ''Nila Varsha''),
     (''Argentina'', ''Hemanta Varsha''),
     (''Peru'', ''Garuda Andes''),
     (''Chile'', ''Sarpa Valley''),
     (''Bolivia'', ''Yaksha Highlands''),
     (''Colombia'', ''Kartika Basin''),
     (''Venezuela'', ''Bhaga Canopy''),
     (''United Kingdom'', ''Svarnadvipa Isles''),
     (''France'', ''Sindhuvisha Territory''),
     (''Spain'', ''Nagavanshi Coast''),
     (''Portugal'', ''Ratnakara Gate''),
     (''Germany'', ''Daityan Foothold''),
     (''Italy'', ''Vanara Peninsula''),
     (''Greece'', ''Yavana Polis''),
     (''Poland'', ''Kuru Outlands''),
     (''Ukraine'', ''Sindhava Plains''),
     (''Belarus'', ''Vasati Corridor''),
     (''Norway'', ''Deva Fjords''),
     (''Sweden'', ''Yaksha Tundra''),
     (''Finland'', ''Marut Tundra''),
     (''Iceland'', ''Shveta Dvipa''),
     (''Greenland'', ''Airavata Glacier''),
     (''Saudi Arabia'', ''Arabia Khanda''),
     (''United Arab Emirates'', ''Ratna Port''),
     (''Qatar'', [CHR 0xC3, CHR 0x85, CHR 0xC5, CHR 0xA1] @ ''ankha Harbor''),
     (''Bahrain'', ''Nagadipa Pearl''),
     (''Oman'', ''Sagara Gate''),
     (''Yemen'', ''Sabha Coast''),
     (''Israel'', ''Shurasena Corridor''),
     (''Jordan'', ''Nishada Marches''),
     (''Lebanon'', ''Vanara Ridge''),
     (''Morocco'', ''Ketumala Coast''),
     (''Algeria'', ''Ruru Expanse''),
     (''Tunisia'', ''Sudarshana Bend''),
     (''Libya'', ''Gandhara West''),
     (''Sudan'', ''Kush Desh''),
     (''South Sudan'', ''Shalya March''),
     (''Chad'', ''Yaksha Sands''),
     (''Niger'', ''Rishika Dunes''),
     (''Mali'', ''Bhima Basin''),
     (''Nigeria'', ''Anarta Delta''),
     (''Ghana'', ''Kuruvarsha''),
     (''Ivory Coast'', ''Duhkha Shore''),
     (''Cameroon'', ''Rakshasa Wilds''),
     (''Democratic Republic of the Congo'', ''Naga Rainforest''),
     (''Republic of the Congo'', ''Naga Littoral''),
     (''Angola'', ''Ketu Savannah''),
     (''Namibia'', ''Pampa Estuary''),
     (''Botswana'', ''Sattva Plains''),
     (''Zimbabwe'', ''Shiva Plateau''),
     (''Mozambique'', ''Sagara Estuary''),
     (''Madagascar'', ''Mahodaya Isle''),
     (''Australia'', ''Ajagara Continent''),
     (''New Zealand'', ''Sura Isles''),
     (''Papua New Guinea'', ''Yakshini Archipelago''),
     (''Philippines'', ''Nagapattinam Isles''),
     (''South Korea'', ''Agnivanshi Peninsula''),
     (''North Korea'', ''Prachya March''),
     (''Bhutan'', ''Druk Yul''),
     (''Iceland'', ''Shveta Dvipa'')]"

text \<open>
  The \<^verbatim>\<open>Map\<close> constructor inserts the entries in order with \<^verbatim>\<open>set\<close>, so a later
  entry replaces an earlier one with the same key.
\<close>

definition dwaparaLookup :: "string \<rightharpoonup> string" where
  "dwaparaLookup = foldl (\<lambda>m (k, v). m(k \<mapsto> v)) Map.empty dwaparaEntries"

text \<open>
  \<^verbatim>\<open>dwaparaLookup.get(key)\<close>: the keys of the table are strings, so a key that is not
  a string finds nothing and the result is \<^verbatim>\<open>undefined\<close>.
\<close>

definition lookup_get :: "'x jsval option \<Rightarrow> 'x jsval option" where
  "lookup_get key =
     (case key of
        Some (JStr s) \<Rightarrow> map_option JStr (dwaparaLookup s)
      | _ \<Rightarrow> None)"

section \<open>The enrichment transform\<close>

text \<open>\<^verbatim>\<open>a ?? b\<close>: the right operand when the left one is \<^verbatim>\<open>null\<close> or \<^verbatim>\<open>undefined\<close>.\<close>

definition nullish :: "'x jsval option \<Rightarrow> bool" where
  "nullish v = (case v of None \<Rightarrow> True | Some JNull \<Rightarrow> True | Some _ \<Rightarrow> False)"

definition coalesce :: "'x jsval option \<Rightarrow> 'x jsval option \<Rightarrow> 'x jsval option" where
  "coalesce a b = (if nullish a then b else a)"

text \<open>\<^verbatim>\<open>feature.properties?.KEY\<close>, on the value of \<^verbatim>\<open>feature.properties\<close>.\<close>

definition get_prop :: "'x props option \<Rightarrow> string \<Rightarrow> 'x jsval option" where
  "get_prop ps key = (case ps of None \<Rightarrow> None | Some p \<Rightarrow> p key)"

text \<open>\<^verbatim>\<open>{...feature.properties}\<close>: spreading \<^verbatim>\<open>null\<close> copies nothing.\<close>

definition spread_props :: "'x props option \<Rightarrow> 'x props" where
  "spread_props ps = (case ps of None \<Rightarrow> Map.empty | Some p \<Rightarrow> p)"

definition modernName_of :: "'x props option \<Rightarrow> 'x jsval option" where
  "modernName_of ps =
     coalesce (coalesce (coalesce (get_prop ps ''NAME_LONG'') (get_prop ps ''ADMIN''))
                 (get_prop ps ''SOVEREIGNT''))
       (Some (JStr ''Unknown Realm''))"

definition dwaparaName_of :: "'x jsval option \<Rightarrow> 'x jsval option" where
  "dwaparaName_of modernName = coalesce (lookup_get modernName) modernName"

text \<open>The new property bag built by the callback of \<^verbatim>\<open>collection.features.map\<close>.\<close>

definition enrichProps :: "'x props option \<Rightarrow> 'x props" where
  "enrichProps ps =
     (let modernName = modernName_of ps;
          dwaparaName = dwaparaName_of modernName
      in (spread_props ps)(''DWAPARA_NAME'' := dwaparaName, ''MODERN_NAME'' := modernName))"

text \<open>The callback itself: \<^verbatim>\<open>{...feature, properties: {...}}\<close>.\<close>

definition enrichFeature :: "('g, 'x, 'm) feature_scheme \<Rightarrow> ('g, 'x, 'm) feature_scheme" where
  "enrichFeature feature = feature\<lparr>properties := Some (enrichProps (properties feature))\<rparr>"

definition enrichDataset ::
  "(('g, 'x, 'm) feature_scheme, 'c) collection_scheme \<Rightarrow>
   (('g, 'x, 'm) feature_scheme, 'c) collection_scheme" where
  "enrichDataset collection =
     (let features' = map enrichFeature (features collection)
      in collection\<lparr>features := features'\<rparr>)"

subsection \<open>The transform on a store of objects\<close>

text \<open>
  The same function with the objects it reads and creates made explicit: a store maps
  addresses to objects, a member that holds an object holds its address, and every
  object or array literal of \<^verbatim>\<open>enrichDataset\<close> allocates a new address. A spread copies
  the members of its operand as they are, an address as an address.
\<close>

type_synonym addr = nat

record feature_obj =
  geometry_ref :: addr
  properties_ref :: "addr option"

record collection_obj =
  features_ref :: addr

datatype ('g, 'x, 'm, 'c) cell =
    CollectionCell "'c collection_obj_scheme"
  | ArrayCell "addr list"
  | FeatureCell "'m feature_obj_scheme"
  | PropsCell "'x props"
  | GeometryCell 'g

record ('g, 'x, 'm, 'c) store =
  cells :: "addr \<rightharpoonup> ('g, 'x, 'm, 'c) cell"
  next_free :: addr

definition alloc ::
  "('g, 'x, 'm, 'c) store \<Rightarrow> ('g, 'x, 'm, 'c) cell \<Rightarrow> ('g, 'x, 'm, 'c) store \<times> addr" where
  "alloc h c = (h\<lparr>cells := (cells h)(next_free h \<mapsto> c), next_free := Suc (next_free h)\<rparr>, next_free h)"

text \<open>
  The value of \<^verbatim>\<open>feature.properties\<close> read through its reference; the outer \<open>None\<close>
  is a reference that does not lead to a property bag.
\<close>

definition load_props :: "('g, 'x, 'm, 'c) store \<Rightarrow> addr option \<Rightarrow> 'x props option option" where
  "load_props h r =
     (case r of
        None \<Rightarrow> Some None
      | Some p \<Rightarrow> (case cells h p of Some (PropsCell b) \<Rightarrow> Some (Some b) | _ \<Rightarrow> None))"

definition enrichFeature_st ::
  "('g, 'x, 'm, 'c) store \<Rightarrow> addr \<Rightarrow> (('g, 'x, 'm, 'c) store \<times> addr) option" where
  "enrichFeature_st h f =
     (case cells h f of
        Some (FeatureCell feature) \<Rightarrow>
          (case load_props h (properties_ref feature) of
             None \<Rightarrow> None
           | Some ps \<Rightarrow>
               (let (h1, p') = alloc h (PropsCell (enrichProps ps))
                in Some (alloc h1 (FeatureCell (feature\<lparr>properties_ref := Some p'\<rparr>)))))
      | _ \<Rightarrow> None)"

fun enrichFeatures_st ::
  "('g, 'x, 'm, 'c) store \<Rightarrow> addr list \<Rightarrow> (('g, 'x, 'm, 'c) store \<times> addr list) option" where
  "enrichFeatures_st h [] = Some (h, [])"
| "enrichFeatures_st h (f # fs) =
     (case enrichFeature_st h f of
        None \<Rightarrow> None
      | Some (h1, f') \<Rightarrow>
          (case enrichFeatures_st h1 fs of
             None \<Rightarrow> None
           | Some (h2, fs') \<Rightarrow> Some (h2, f' # fs')))"

definition enrichDataset_st ::
  "('g, 'x, 'm, 'c) store \<Rightarrow> addr \<Rightarrow> (('g, 'x, 'm, 'c) store \<times> addr) option" where
  "enrichDataset_st h c =
     (case cells h c of
        Some (CollectionCell collection) \<Rightarrow>
          (case cells h (features_ref collection) of
             Some (ArrayCell fs) \<Rightarrow>
               (case enrichFeatures_st h fs of
                  None \<Rightarrow> None
                | Some (h1, fs') \<Rightarrow>
                    (let (h2, a) = alloc h1 (ArrayCell fs')
                     in Some (alloc h2 (CollectionCell (collection\<lparr>features_ref := a\<rparr>)))))
           | _ \<Rightarrow> None)
      | _ \<Rightarrow> None)"

text \<open>Reading a collection back from the store as a value.\<close>

definition read_feature ::
  "('g, 'x, 'm, 'c) store \<Rightarrow> addr \<Rightarrow> ('g, 'x, 'm) feature_scheme option" where
  "read_feature h f =
     (case cells h f of
        Some (FeatureCell feature) \<Rightarrow>
          (case (cells h (geometry_ref feature), load_props h (properties_ref feature)) of
             (Some (GeometryCell g), Some ps) \<Rightarrow>
               Some \<lparr>geometry = g, properties = ps, \<dots> = feature_obj.more feature\<rparr>
           | _ \<Rightarrow> None)
      | _ \<Rightarrow> None)"

fun read_features ::
  "('g, 'x, 'm, 'c) store \<Rightarrow> addr list \<Rightarrow> ('g, 'x, 'm) feature_scheme list option" where
  "read_features h [] = Some []"
| "read_features h (f # fs) =
     (case (read_feature h f, read_features h fs) of
        (Some v, Some vs) \<Rightarrow> Some (v # vs)
      | _ \<Rightarrow> None)"

definition read_collection ::
  "('g, 'x, 'm, 'c) store \<Rightarrow> addr \<Rightarrow>
   (('g, 'x, 'm) feature_scheme, 'c) collection_scheme option" where
  "read_collection h c =
     (case cells h c of
        Some (CollectionCell collection) \<Rightarrow>
          (case cells h (features_ref collection) of
             Some (ArrayCell fs) \<Rightarrow>
               (case read_features h fs of
                  Some vs \<Rightarrow> Some \<lparr>features = vs, \<dots> = collection_obj.more collection\<rparr>
                | None \<Rightarrow> None)
           | _ \<Rightarrow> None)
      | _ \<Rightarrow> None)"

text \<open>
  The addresses of the objects a collection consists of: the collection, its array,
  every feature and its property bag (the objects \<^verbatim>\<open>enrichDataset\<close> builds anew), and
  the geometry of every feature.
\<close>

definition array_of :: "('g, 'x, 'm, 'c) store \<Rightarrow> addr \<Rightarrow> addr list" where
  "array_of h c =
     (case cells h c of
        Some (CollectionCell collection) \<Rightarrow>
          (case cells h (features_ref collection) of Some (ArrayCell fs) \<Rightarrow> fs | _ \<Rightarrow> [])
      | _ \<Rightarrow> [])"

definition feature_spine :: "('g, 'x, 'm, 'c) store \<Rightarrow> addr \<Rightarrow> addr list" where
  "feature_spine h f =
     (case cells h f of
        Some (FeatureCell feature) \<Rightarrow>
          f # (case properties_ref feature of None \<Rightarrow> [] | Some p \<Rightarrow> [p])
      | _ \<Rightarrow> [f])"

definition feature_geometry :: "('g, 'x, 'm, 'c) store \<Rightarrow> addr \<Rightarrow> addr list" where
  "feature_geometry h f =
     (case cells h f of Some (FeatureCell feature) \<Rightarrow> [geometry_ref feature] | _ \<Rightarrow> [])"

definition spine_addrs :: "('g, 'x, 'm, 'c) store \<Rightarrow> addr \<Rightarrow> addr list" where
  "spine_addrs h c =
     c # (case cells h c of
            Some (CollectionCell collection) \<Rightarrow>
              features_ref collection # concat (map (feature_spine h) (array_of h c))
          | _ \<Rightarrow> [])"

definition geometry_addrs :: "('g, 'x, 'm, 'c) store \<Rightarrow> addr \<Rightarrow> addr list" where
  "geometry_addrs h c = concat (map (feature_geometry h) (array_of h c))"

definition collection_addrs :: "('g, 'x, 'm, 'c) store \<Rightarrow> addr \<Rightarrow> addr list" where
  "collection_addrs h c = spine_addrs h c @ geometry_addrs h c"

text \<open>A store is in order when every object lies below the next free address.\<close>

definition store_ok :: "('g, 'x, 'm, 'c) store \<Rightarrow> bool" where
  "store_ok h = (dom (cells h) \<subseteq> {..<next_free h})"

text \<open>
  The addresses that the output of \<^verbatim>\<open>enrichDataset\<close> has in common with its input.
\<close>

definition shared_addrs :: "('g, 'x, 'm, 'c) store \<Rightarrow> addr \<Rightarrow> addr list" where
  "shared_addrs h c =
     (case enrichDataset_st h c of
        None \<Rightarrow> []
      | Some (h', c') \<Rightarrow> filter (\<lambda>a. a \<in> set (collection_addrs h c)) (collection_addrs h' c'))"

section \<open>The render binder\<close>

text \<open>
  A Leaflet layer, as far as the component touches it: its path options, its tooltip
  and its event listeners. \<^verbatim>\<open>setStyle\<close> writes the given options over the layer's own,
  \<^verbatim>\<open>bindTooltip\<close> sets the tooltip, \<^verbatim>\<open>on\<close> adds listeners, and firing an event runs the
  listeners registered for its type in order.
\<close>

record tooltip_options =
  sticky :: bool
  direction :: string
  opacity :: rat
  className :: string

datatype handler = FeatureHover | FeatureLeave

record layer =
  options :: path_options
  tooltip :: "(string \<times> tooltip_options) option"
  listeners :: "(string \<times> handler) list"

definition setStyle :: "layer \<Rightarrow> path_options \<Rightarrow> layer" where
  "setStyle target style = target\<lparr>options := options target ++ style\<rparr>"

definition bindTooltip :: "layer \<Rightarrow> string \<Rightarrow> tooltip_options \<Rightarrow> layer" where
  "bindTooltip l content opts = l\<lparr>tooltip := Some (content, opts)\<rparr>"

definition on :: "layer \<Rightarrow> (string \<times> handler) list \<Rightarrow> layer" where
  "on l hs = l\<lparr>listeners := listeners l @ hs\<rparr>"

text \<open>\<^verbatim>\<open>const featureStyle = useMemo(() => defaultStyle, [])\<close>\<close>

definition featureStyle :: path_options where
  "featureStyle = defaultStyle"

definition handleFeatureHover :: "layer \<Rightarrow> layer" where
  "handleFeatureHover target = setStyle target hoverStyle"

definition handleFeatureLeave :: "layer \<Rightarrow> layer" where
  "handleFeatureLeave target = setStyle target featureStyle"

fun call_handler :: "handler \<Rightarrow> layer \<Rightarrow> layer" where
  "call_handler FeatureHover target = handleFeatureHover target"
| "call_handler FeatureLeave target = handleFeatureLeave target"

definition fire :: "layer \<Rightarrow> string \<Rightarrow> layer" where
  "fire l type =
     foldl (\<lambda>target (t, h). if t = type then call_handler h target else target) l (listeners l)"

text \<open>
  Strings of other values. \<open>str_of\<close> is JavaScript's conversion of a value that is
  neither a string nor nullish to a string, and \<open>same\<close> its strict equality on such
  values; both belong to the language, not to the component. A template literal
  converts with \<^verbatim>\<open>String\<close>, \<^verbatim>\<open>Array.prototype.join\<close> writes a nullish element as the
  empty string.
\<close>

definition template_text :: "('x \<Rightarrow> string) \<Rightarrow> 'x jsval option \<Rightarrow> string" where
  "template_text str_of v =
     (case v of
        None \<Rightarrow> ''undefined''
      | Some JNull \<Rightarrow> ''null''
      | Some (JStr s) \<Rightarrow> s
      | Some (JOther x) \<Rightarrow> str_of x)"

definition join_text :: "('x \<Rightarrow> string) \<Rightarrow> 'x jsval option \<Rightarrow> string" where
  "join_text str_of v = (if nullish v then [] else template_text str_of v)"

fun join :: "string list \<Rightarrow> string \<Rightarrow> string" where
  "join [] sep = []"
| "join [x] sep = x"
| "join (x # y # ys) sep = x @ sep @ join (y # ys) sep"

text \<open>\<^verbatim>\<open>a !== b\<close>\<close>

definition strict_neq :: "('x \<Rightarrow> 'x \<Rightarrow> bool) \<Rightarrow> 'x jsval option \<Rightarrow> 'x jsval option \<Rightarrow> bool" where
  "strict_neq same a b =
     (case (a, b) of
        (Some (JOther x), Some (JOther y)) \<Rightarrow> \<not> same x y
      | _ \<Rightarrow> a \<noteq> b)"

text \<open>The lines of the tooltip, before they are joined.\<close>

definition tooltipLines ::
  "('x \<Rightarrow> string) \<Rightarrow> ('x \<Rightarrow> 'x \<Rightarrow> bool) \<Rightarrow> 'x props option \<Rightarrow> 'x jsval option list" where
  "tooltipLines str_of same ps =
     (let dwaparaName = coalesce (get_prop ps ''DWAPARA_NAME'') (Some (JStr ''Unnamed Dominion''));
          modernName = coalesce (get_prop ps ''MODERN_NAME'') dwaparaName;
          lines = [dwaparaName]
      in if strict_neq same modernName dwaparaName
         then lines @ [Some (JStr (''Modern: '' @ template_text str_of modernName))]
         else lines)"

definition handleEachFeature ::
  "('x \<Rightarrow> string) \<Rightarrow> ('x \<Rightarrow> 'x \<Rightarrow> bool) \<Rightarrow> ('g, 'x, 'm) feature_scheme \<Rightarrow> layer \<Rightarrow> layer" where
  "handleEachFeature str_of same feature l =
     (let lines = tooltipLines str_of same (properties feature);
          l1 = bindTooltip l (join (map (join_text str_of) lines) [CHR 0x0A])
                 \<lparr>sticky = True, direction = ''auto'', opacity = 9 / 10,
                  className = ''dwapara-tooltip''\<rparr>
      in on l1 [(''mouseover'', FeatureHover), (''mouseout'', FeatureLeave)])"

section \<open>The load lifecycle and the shell\<close>

text \<open>
  \<^verbatim>\<open>response.json()\<close> resolves with whatever value the body parses to, and the cast
  \<^verbatim>\<open>as DwaparaFeatureCollection\<close> checks nothing. A parsed value is \<^verbatim>\<open>null\<close>, a boolean,
  a number (kept abstract), a string, an array, or an object with its own members
  under distinct keys.
\<close>

datatype 'n json =
    JsonNull
  | JsonBool bool
  | JsonNumber 'n
  | JsonString string
  | JsonArray "'n json list"
  | JsonObject "(string \<times> 'n json) list"

text \<open>
  Reading the member \<^verbatim>\<open>features\<close> of a parsed value that is not \<^verbatim>\<open>null\<close>: an object has
  it when it is among its own members, anything else has not (the result is
  \<^verbatim>\<open>undefined\<close>).
\<close>

definition json_member :: "'n json \<Rightarrow> string \<Rightarrow> 'n json option" where
  "json_member v key = (case v of JsonObject members \<Rightarrow> map_of members key | _ \<Rightarrow> None)"

text \<open>
  Where \<^verbatim>\<open>enrichDataset\<close> throws a \<^verbatim>\<open>TypeError\<close> on a parsed value. The callback reads
  \<^verbatim>\<open>feature.properties\<close>, which throws when the element is \<^verbatim>\<open>null\<close>; every later read
  goes through \<^verbatim>\<open>?.\<close> and the spreads accept any value. \<^verbatim>\<open>collection.features.map(...)\<close>
  throws when the collection is \<^verbatim>\<open>null\<close>, when \<^verbatim>\<open>features\<close> is \<^verbatim>\<open>undefined\<close> or \<^verbatim>\<open>null\<close>,
  when it is not an array and so has no function \<^verbatim>\<open>map\<close>, and when the callback throws on
  an element.
\<close>

definition callback_throws :: "'n json \<Rightarrow> bool" where
  "callback_throws feature = (case feature of JsonNull \<Rightarrow> True | _ \<Rightarrow> False)"

definition enrichDataset_throws :: "'n json \<Rightarrow> bool" where
  "enrichDataset_throws collection =
     (case collection of
        JsonNull \<Rightarrow> True
      | _ \<Rightarrow>
          (case json_member collection ''features'' of
             Some (JsonArray fs) \<Rightarrow> list_ex callback_throws fs
           | _ \<Rightarrow> True))"

text \<open>
  A value caught by \<^verbatim>\<open>catch (err)\<close>: an instance of \<^verbatim>\<open>Error\<close> with its message, or
  anything else.
\<close>

datatype 'e thrown = ErrorInstance string | NotAnError 'e

text \<open>
  The state of one mounted \<^verbatim>\<open>WorldMap\<close>: the three \<^verbatim>\<open>useState\<close> cells, the variable
  \<^verbatim>\<open>isSubscribed\<close> of the effect, and the point \<^verbatim>\<open>loadDataset\<close> has reached.
\<close>

datatype progress = NotStarted | AwaitFetch | AwaitJson | Finished

record 'd world_map =
  dataset :: "'d option"
  error :: "string option"
  isMounted :: bool
  isSubscribed :: bool
  progress :: progress

definition initial :: "'d world_map" where
  "initial = \<lparr>dataset = None, error = None, isMounted = False, isSubscribed = False,
              progress = NotStarted\<rparr>"

text \<open>
  What can happen to it: the effects run after the first render, the promise of
  \<^verbatim>\<open>fetch\<close> settles, the promise of \<^verbatim>\<open>response.json()\<close> settles, the cleanup of the
  effect runs. An event has an effect only at the point of the program that waits for
  it; the cleanup exists once the effect has run. The promise of \<^verbatim>\<open>response.json()\<close>
  resolves either with a value on which \<^verbatim>\<open>enrichDataset\<close> returns, given here as
  the collection it is read as (\<open>JsonResolved\<close>), or with a value on which
  \<^verbatim>\<open>enrichDataset\<close> throws, given by the message of the \<^verbatim>\<open>TypeError\<close> the engine then
  raises (\<open>JsonUnprocessable\<close>).
\<close>

datatype ('r, 'e) event =
    EffectsRun
  | FetchRejected "'e thrown"
  | FetchResolved bool string
  | JsonRejected "'e thrown"
  | JsonResolved 'r
  | JsonUnprocessable string
  | Cleanup

text \<open>
  The event that a parsed body makes of the resolution of \<^verbatim>\<open>response.json()\<close>:
  \<open>as_collection\<close> is the cast, the reading of the value as a collection, and
  \<open>type_error\<close> the message the engine gives its \<^verbatim>\<open>TypeError\<close>.
\<close>

definition settle_json :: "('n json \<Rightarrow> 'r) \<Rightarrow> 'n json \<Rightarrow> string \<Rightarrow> ('r, 'e) event" where
  "settle_json as_collection raw type_error =
     (if enrichDataset_throws raw then JsonUnprocessable type_error
      else JsonResolved (as_collection raw))"

text \<open>The \<^verbatim>\<open>catch\<close> block of \<^verbatim>\<open>loadDataset\<close>.\<close>

definition loadDataset_catch :: "'d world_map \<Rightarrow> 'e thrown \<Rightarrow> 'd world_map" where
  "loadDataset_catch s err =
     (if isSubscribed s
      then s\<lparr>error := Some (case err of ErrorInstance message \<Rightarrow> message
                                | NotAnError _ \<Rightarrow> ''Unknown error while loading dataset'')\<rparr>
      else s)"

text \<open>
  \<^verbatim>\<open>loadDataset\<close>, resumed by the settling of the promise it awaits: after
  \<^verbatim>\<open>await fetch(...)\<close> it throws on a response that is not \<^verbatim>\<open>ok\<close> and otherwise awaits
  \<^verbatim>\<open>response.json()\<close>; after that, if the component is still subscribed, it calls
  \<^verbatim>\<open>enrichDataset\<close> and stores the enriched dataset. Whatever is thrown lands in the
  \<^verbatim>\<open>catch\<close> block, the \<^verbatim>\<open>TypeError\<close> of \<^verbatim>\<open>enrichDataset\<close> too; when the component is no
  longer subscribed \<^verbatim>\<open>enrichDataset\<close> is not called and nothing is thrown.
\<close>

definition loadDataset ::
  "(('g, 'x, 'm) feature_scheme, 'c) collection_scheme world_map \<Rightarrow>
   ((('g, 'x, 'm) feature_scheme, 'c) collection_scheme, 'e) event \<Rightarrow>
   (('g, 'x, 'm) feature_scheme, 'c) collection_scheme world_map" where
  "loadDataset s ev =
     (case ev of
        FetchRejected err \<Rightarrow>
          (if progress s = AwaitFetch then (loadDataset_catch s err)\<lparr>progress := Finished\<rparr>
           else s)
      | FetchResolved ok statusText \<Rightarrow>
          (if progress s = AwaitFetch
           then (if \<not> ok
                 then (loadDataset_catch s
                         (ErrorInstance (''Failed to load dataset: '' @ statusText) :: 'e thrown))
                        \<lparr>progress := Finished\<rparr>
                 else s\<lparr>progress := AwaitJson\<rparr>)
           else s)
      | JsonRejected err \<Rightarrow>
          (if progress s = AwaitJson then (loadDataset_catch s err)\<lparr>progress := Finished\<rparr>
           else s)
      | JsonResolved raw \<Rightarrow>
          (if progress s = AwaitJson
           then (if isSubscribed s then s\<lparr>dataset := Some (enrichDataset raw)\<rparr> else s)
                  \<lparr>progress := Finished\<rparr>
           else s)
      | JsonUnprocessable type_error \<Rightarrow>
          (if progress s = AwaitJson
           then (if isSubscribed s
                 then loadDataset_catch s (ErrorInstance type_error :: 'e thrown)
                 else s)
                  \<lparr>progress := Finished\<rparr>
           else s)
      | _ \<Rightarrow> s)"

text \<open>
  One event on the component. The two effects set \<^verbatim>\<open>isMounted\<close>, set \<^verbatim>\<open>isSubscribed\<close>
  and start \<^verbatim>\<open>loadDataset\<close>, which runs up to its first \<^verbatim>\<open>await\<close>; the cleanup clears
  \<^verbatim>\<open>isSubscribed\<close>.
\<close>

definition step ::
  "(('g, 'x, 'm) feature_scheme, 'c) collection_scheme world_map \<Rightarrow>
   ((('g, 'x, 'm) feature_scheme, 'c) collection_scheme, 'e) event \<Rightarrow>
   (('g, 'x, 'm) feature_scheme, 'c) collection_scheme world_map" where
  "step s ev =
     (case ev of
        EffectsRun \<Rightarrow>
          (if progress s = NotStarted
           then s\<lparr>isMounted := True, isSubscribed := True, progress := AwaitFetch\<rparr>
           else s)
      | Cleanup \<Rightarrow> (if progress s = NotStarted then s else s\<lparr>isSubscribed := False\<rparr>)
      | _ \<Rightarrow> loadDataset s ev)"

definition run ::
  "(('g, 'x, 'm) feature_scheme, 'c) collection_scheme world_map \<Rightarrow>
   ((('g, 'x, 'm) feature_scheme, 'c) collection_scheme, 'e) event list \<Rightarrow>
   (('g, 'x, 'm) feature_scheme, 'c) collection_scheme world_map" where
  "run s evs = foldl step s evs"

text \<open>
  What \<^verbatim>\<open>WorldMap\<close> returns: one of four views. \<^verbatim>\<open>if (error)\<close> is taken by a string
  that is not empty.
\<close>

datatype 'd view = Initializing | ErrorView string | LoadingView | MapView 'd

definition render :: "'d world_map \<Rightarrow> 'd view" where
  "render s =
     (if \<not> isMounted s then Initializing
      else case error s of
             Some (c # cs) \<Rightarrow> ErrorView (c # cs)
           | _ \<Rightarrow> (case dataset s of None \<Rightarrow> LoadingView | Some d \<Rightarrow> MapView d))"

section \<open>The specification's wording and sample inputs\<close>

text \<open>
  The derived names as the specification words them: the modern name is the value of
  the first of the three name fields that is present and not \<^verbatim>\<open>null\<close>, or the
  sentinel; the alternate name is the table's value for the modern name, or the modern
  name itself when the table has none.
\<close>

definition present :: "'x props option \<Rightarrow> string \<Rightarrow> bool" where
  "present ps key = (case get_prop ps key of None \<Rightarrow> False | Some v \<Rightarrow> v \<noteq> JNull)"

definition spec_modernName :: "'x props option \<Rightarrow> 'x jsval option" where
  "spec_modernName ps =
     (case List.find (present ps) [''NAME_LONG'', ''ADMIN'', ''SOVEREIGNT''] of
        Some key \<Rightarrow> get_prop ps key
      | None \<Rightarrow> Some (JStr ''Unknown Realm''))"

definition spec_alternateName :: "'x jsval option \<Rightarrow> 'x jsval option" where
  "spec_alternateName modern =
     (case modern of
        Some (JStr s) \<Rightarrow> (case dwaparaLookup s of Some v \<Rightarrow> Some (JStr v) | None \<Rightarrow> modern)
      | _ \<Rightarrow> modern)"

text \<open>The two derived fields of a feature: \<^verbatim>\<open>MODERN_NAME\<close> and \<^verbatim>\<open>DWAPARA_NAME\<close>.\<close>

definition derived_names :: "('g, 'x, 'm) feature_scheme \<Rightarrow> 'x jsval option \<times> 'x jsval option" where
  "derived_names feature =
     (get_prop (properties feature) ''MODERN_NAME'', get_prop (properties feature) ''DWAPARA_NAME'')"

definition india_collection :: "((unit, unit) feature, unit) collection_scheme" where
  "india_collection =
     \<lparr>features = [\<lparr>geometry = (), properties = Some [''ADMIN'' \<mapsto> JStr ''India'']\<rparr>]\<rparr>"

definition atlantis_collection :: "((unit, unit) feature, unit) collection_scheme" where
  "atlantis_collection =
     \<lparr>features = [\<lparr>geometry = (), properties = Some [''ADMIN'' \<mapsto> JStr ''Atlantis'']\<rparr>,
                  \<lparr>geometry = (), properties = None\<rparr>]\<rparr>"

definition empty_name_collection :: "((unit, unit) feature, unit) collection_scheme" where
  "empty_name_collection =
     \<lparr>features = [\<lparr>geometry = (), properties = Some [''NAME_LONG'' \<mapsto> JStr []]\<rparr>]\<rparr>"

text \<open>The text of the tooltip bound to a layer.\<close>

definition tooltip_text :: "layer \<Rightarrow> string option" where
  "tooltip_text l = map_option fst (tooltip l)"

text \<open>
  A run of mouse events on a layer, and a run of calls of the two hover handlers; the
  four options the two styles set, and the style a handler sets.
\<close>

definition apply_events :: "layer \<Rightarrow> string list \<Rightarrow> layer" where
  "apply_events l types = foldl fire l types"

definition apply_handlers :: "layer \<Rightarrow> handler list \<Rightarrow> layer" where
  "apply_handlers l hs = foldl (\<lambda>target h. call_handler h target) l hs"

definition style_keys :: "string set" where
  "style_keys = {''color'', ''weight'', ''fillColor'', ''fillOpacity''}"

definition style_after :: "handler \<Rightarrow> path_options" where
  "style_after h = (case h of FeatureHover \<Rightarrow> hoverStyle | FeatureLeave \<Rightarrow> defaultStyle)"

text \<open>A layer as the map hands it to the binder: drawn with the default style.\<close>

definition styled_layer :: layer where
  "styled_layer =
     \<lparr>options = defaultStyle(''opacity'' \<mapsto> ONum 1), tooltip = None, listeners = []\<rparr>"

text \<open>A feature that has not been through \<^verbatim>\<open>enrichDataset\<close>.\<close>

definition raw_feature :: "(unit, unit) feature" where
  "raw_feature = \<lparr>geometry = (), properties = Some [''ADMIN'' \<mapsto> JStr ''India'']\<rparr>"

text \<open>
  The properties of a feature apart from the two derived ones.
\<close>

definition original_props :: "('g, 'x, 'm) feature_scheme \<Rightarrow> 'x props" where
  "original_props feature =
     restrict_map (spread_props (properties feature)) (- {''DWAPARA_NAME'', ''MODERN_NAME''})"

text \<open>
  A later store extends an earlier one when it has the same objects below the earlier
  store's next free address.
\<close>

definition store_ext :: "('g, 'x, 'm, 'c) store \<Rightarrow> ('g, 'x, 'm, 'c) store \<Rightarrow> bool" where
  "store_ext h h' =
     (restrict_map (cells h') {..<next_free h} = cells h \<and> next_free h \<le> next_free h' \<and>
      store_ok h')"

text \<open>A store that holds the collection \<open>india_collection\<close> at address 4.\<close>

definition sample_store :: "(unit, unit, unit, unit) store" where
  "sample_store =
     \<lparr>cells = [0 \<mapsto> GeometryCell (),
               1 \<mapsto> PropsCell [''ADMIN'' \<mapsto> JStr ''India''],
               2 \<mapsto> FeatureCell \<lparr>geometry_ref = 0, properties_ref = Some 1\<rparr>,
               3 \<mapsto> ArrayCell [2],
               4 \<mapsto> CollectionCell \<lparr>features_ref = 3\<rparr>],
      next_free = 5\<rparr>"

text \<open>
  The failures of the load as the specification lists them, each with the message it
  names: a rejected \<^verbatim>\<open>fetch\<close>, a response whose status is not a success, and a body
  that cannot be processed as the expected structure, which is one that
  \<^verbatim>\<open>response.json()\<close> rejects or one that parses and on which \<^verbatim>\<open>enrichDataset\<close> throws.
  \<open>awaited\<close> says that the program is at the point that waits for the event.
\<close>

definition failure_message :: "('r, 'e) event \<Rightarrow> string option" where
  "failure_message ev =
     (case ev of
        FetchRejected (ErrorInstance message) \<Rightarrow> Some message
      | FetchRejected (NotAnError _) \<Rightarrow> Some ''Unknown error while loading dataset''
      | FetchResolved ok statusText \<Rightarrow>
          (if ok then None else Some (''Failed to load dataset: '' @ statusText))
      | JsonRejected (ErrorInstance message) \<Rightarrow> Some message
      | JsonRejected (NotAnError _) \<Rightarrow> Some ''Unknown error while loading dataset''
      | JsonUnprocessable type_error \<Rightarrow> Some type_error
      | _ \<Rightarrow> None)"

definition awaited :: "progress \<Rightarrow> ('r, 'e) event \<Rightarrow> bool" where
  "awaited p ev =
     (case ev of
        FetchRejected _ \<Rightarrow> p = AwaitFetch
      | FetchResolved _ _ \<Rightarrow> p = AwaitFetch
      | JsonRejected _ \<Rightarrow> p = AwaitJson
      | JsonResolved _ \<Rightarrow> p = AwaitJson
      | JsonUnprocessable _ \<Rightarrow> p = AwaitJson
      | _ \<Rightarrow> False)"

text \<open>Sample events and states of the component.\<close>

type_synonym sample_event = "((unit, unit) feature collection, unit) event"

definition load_succeeds :: "sample_event list" where
  "load_succeeds = [FetchResolved True ''OK'', JsonResolved india_collection]"

definition not_found :: sample_event where
  "not_found = FetchResolved False ''Not Found''"

definition rejected_empty :: sample_event where
  "rejected_empty = FetchRejected (ErrorInstance [])"

text \<open>
  The bodies \<^verbatim>\<open>{}\<close> and \<^verbatim>\<open>null\<close>, a reading of a body as a collection for the samples,
  and the message V8 gives the \<^verbatim>\<open>TypeError\<close> of \<^verbatim>\<open>collection.features.map\<close> when
  \<^verbatim>\<open>features\<close> is \<^verbatim>\<open>undefined\<close>.
\<close>

definition empty_object_body :: "unit json" where
  "empty_object_body = JsonObject []"

definition null_body :: "unit json" where
  "null_body = JsonNull"

definition sample_reading :: "unit json \<Rightarrow> (unit, unit) feature collection" where
  "sample_reading raw = \<lparr>features = []\<rparr>"

definition undefined_map_message :: string where
  "undefined_map_message =
     ''Cannot read properties of undefined (reading '' @ [CHR 0x27] @ ''map'' @ [CHR 0x27] @ '')''"

definition awaiting_json :: "(unit, unit) feature collection world_map" where
  "awaiting_json = step (step initial (EffectsRun :: sample_event))
     (FetchResolved True ''OK'' :: sample_event)"

definition mounted :: "(unit, unit) feature collection world_map" where
  "mounted = step initial (EffectsRun :: sample_event)"

definition detached :: "(unit, unit) feature collection world_map" where
  "detached = step mounted (Cleanup :: sample_event)"

section \<open>Properties of the naming table and the transform\<close>

lemma foldl_set_map_of:
  "foldl (\<lambda>m (k, v). m(k \<mapsto> v)) m0 xs = m0 ++ map_of (rev xs)"
  by (induction xs arbitrary: m0)
     (auto simp: map_add_upd_left fun_eq_iff map_add_def split: option.splits)

lemma dwaparaLookup_map_of: "dwaparaLookup = map_of (rev dwaparaEntries)"
  by (simp add: dwaparaLookup_def foldl_set_map_of)

lemma dwaparaLookup_India: "dwaparaLookup ''India'' = Some ''Bharata Khanda''"
  by code_simp

lemma dwaparaEntries_nonempty: "(k, v) \<in> set dwaparaEntries \<Longrightarrow> v \<noteq> []"
  by (auto simp add: dwaparaEntries_def)

lemma dwaparaLookup_nonempty: "dwaparaLookup k = Some v \<Longrightarrow> v \<noteq> []"
  using dwaparaEntries_nonempty[of k v]
  by (auto simp: dwaparaLookup_map_of dest!: map_of_SomeD)

lemma nullish_simps [simp]:
  "nullish None" "nullish (Some JNull)" "\<not> nullish (Some (JStr s))" "\<not> nullish (Some (JOther x))"
  by (simp_all add: nullish_def)

lemma modernName_not_nullish: "\<not> nullish (modernName_of ps)"
  by (simp add: modernName_of_def coalesce_def)

lemma modernName_spec: "modernName_of ps = spec_modernName ps"
  by (auto simp: modernName_of_def spec_modernName_def coalesce_def present_def nullish_def
      split: option.splits jsval.splits)

lemma dwaparaName_spec: "\<not> nullish m \<Longrightarrow> dwaparaName_of m = spec_alternateName m"
  by (auto simp: dwaparaName_of_def spec_alternateName_def coalesce_def lookup_get_def nullish_def
      split: option.splits jsval.splits)

lemma enrichProps_MODERN: "enrichProps ps ''MODERN_NAME'' = modernName_of ps"
  by (simp add: enrichProps_def Let_def)

lemma enrichProps_DWAPARA: "enrichProps ps ''DWAPARA_NAME'' = dwaparaName_of (modernName_of ps)"
  by (simp add: enrichProps_def Let_def)

lemma enrichProps_other:
  "key \<noteq> ''DWAPARA_NAME'' \<Longrightarrow> key \<noteq> ''MODERN_NAME'' \<Longrightarrow> enrichProps ps key = get_prop ps key"
  by (simp add: enrichProps_def Let_def spread_props_def get_prop_def split: option.splits)

lemma derived_names_enrichFeature:
  "derived_names (enrichFeature f) =
     (spec_modernName (properties f), spec_alternateName (spec_modernName (properties f)))"
  using modernName_not_nullish[of "properties f"]
  by (simp add: derived_names_def enrichFeature_def get_prop_def enrichProps_MODERN
      enrichProps_DWAPARA dwaparaName_spec modernName_spec)

text \<open>
  Claim C1. For every feature of the input, in order, the enriched feature's modern
  name is the first of \<^verbatim>\<open>NAME_LONG\<close>, \<^verbatim>\<open>ADMIN\<close>, \<^verbatim>\<open>SOVEREIGNT\<close> that is present and
  not \<^verbatim>\<open>null\<close>, or \<^verbatim>\<open>"Unknown Realm"\<close> when there is none, and its alternate name is the
  naming table's value for that modern name, or the modern name when the table has no
  entry. A feature with the properties \<^verbatim>\<open>{ADMIN: "India"}\<close> gets the modern name
  \<^verbatim>\<open>"India"\<close> and the alternate name \<^verbatim>\<open>"Bharata Khanda"\<close>.
\<close>

theorem enrichDataset_names:
  "map derived_names (features (enrichDataset c)) =
     map (\<lambda>f. (spec_modernName (properties f), spec_alternateName (spec_modernName (properties f))))
       (features c)
   \<and> derived_names
       (enrichFeature \<lparr>geometry = g, properties = Some [''ADMIN'' \<mapsto> JStr ''India'']\<rparr>) =
       (Some (JStr ''India''), Some (JStr ''Bharata Khanda''))"
proof
  show "map derived_names (features (enrichDataset c)) =
     map (\<lambda>f. (spec_modernName (properties f), spec_alternateName (spec_modernName (properties f))))
       (features c)"
    by (simp add: enrichDataset_def derived_names_enrichFeature)
next
  show "derived_names
       (enrichFeature \<lparr>geometry = g, properties = Some [''ADMIN'' \<mapsto> JStr ''India'']\<rparr>) =
       (Some (JStr ''India''), Some (JStr ''Bharata Khanda''))"
    by (simp add: derived_names_enrichFeature spec_modernName_def present_def get_prop_def
        spec_alternateName_def dwaparaLookup_India)
qed

lemma lookup_get_nonempty: "lookup_get m = Some v \<Longrightarrow> v \<noteq> JNull \<and> v \<noteq> JStr []"
  by (auto simp: lookup_get_def split: option.splits jsval.splits dest: dwaparaLookup_nonempty)

lemma lookup_get_empty: "lookup_get (Some (JStr [])) = None"
proof -
  have "dwaparaLookup [] = None" by code_simp
  then show ?thesis by (simp add: lookup_get_def)
qed

lemma dwaparaName_cases:
  "dwaparaName_of m = (case lookup_get m of None \<Rightarrow> m | Some v \<Rightarrow> Some v)"
  using lookup_get_nonempty[of m]
  by (auto simp: dwaparaName_of_def coalesce_def nullish_def split: option.splits jsval.splits)

lemma dwaparaName_not_nullish: "\<not> nullish m \<Longrightarrow> \<not> nullish (dwaparaName_of m)"
  using lookup_get_nonempty[of m]
  by (auto simp: dwaparaName_cases nullish_def split: option.splits jsval.splits)

lemma dwaparaName_empty_iff: "dwaparaName_of m = Some (JStr []) \<longleftrightarrow> m = Some (JStr [])"
  using lookup_get_nonempty[of m]
  by (auto simp: dwaparaName_cases lookup_get_empty split: option.splits)

text \<open>
  Claim C4, as stated, fails: a feature whose \<^verbatim>\<open>NAME_LONG\<close> is the empty string is
  enriched with the empty string as its modern name and as its alternate name, since
  \<^verbatim>\<open>??\<close> passes over \<^verbatim>\<open>null\<close> and \<^verbatim>\<open>undefined\<close> only.
\<close>

theorem enrichDataset_empty_alternateName:
  "map derived_names (features (enrichDataset empty_name_collection)) =
     [(Some (JStr []), Some (JStr []))]"
  by code_simp

text \<open>
  Claim C4, amended. Every feature of the enriched output has an alternate name that
  is neither \<^verbatim>\<open>null\<close> nor \<^verbatim>\<open>undefined\<close>; it is the empty string exactly when the
  resolved modern name is the empty string; and when the naming table has no entry for
  the modern name, the alternate name equals the modern name.
\<close>

theorem enrichDataset_alternateName:
  "\<forall>f \<in> set (features (enrichDataset c)).
     \<not> nullish (get_prop (properties f) ''DWAPARA_NAME'') \<and>
     (get_prop (properties f) ''DWAPARA_NAME'' = Some (JStr []) \<longleftrightarrow>
        get_prop (properties f) ''MODERN_NAME'' = Some (JStr [])) \<and>
     (lookup_get (get_prop (properties f) ''MODERN_NAME'') = None \<longrightarrow>
        get_prop (properties f) ''DWAPARA_NAME'' = get_prop (properties f) ''MODERN_NAME'')"
proof
  fix f assume "f \<in> set (features (enrichDataset c))"
  then obtain f0 where f: "f = enrichFeature f0"
    by (auto simp: enrichDataset_def)
  have m: "get_prop (properties f) ''MODERN_NAME'' = modernName_of (properties f0)"
    and d: "get_prop (properties f) ''DWAPARA_NAME'' = dwaparaName_of (modernName_of (properties f0))"
    by (simp_all add: f enrichFeature_def get_prop_def enrichProps_MODERN enrichProps_DWAPARA)
  show "\<not> nullish (get_prop (properties f) ''DWAPARA_NAME'') \<and>
     (get_prop (properties f) ''DWAPARA_NAME'' = Some (JStr []) \<longleftrightarrow>
        get_prop (properties f) ''MODERN_NAME'' = Some (JStr [])) \<and>
     (lookup_get (get_prop (properties f) ''MODERN_NAME'') = None \<longrightarrow>
        get_prop (properties f) ''DWAPARA_NAME'' = get_prop (properties f) ''MODERN_NAME'')"
    unfolding m d
    by (intro conjI impI dwaparaName_not_nullish modernName_not_nullish dwaparaName_empty_iff)
       (simp add: dwaparaName_cases)
qed

theorem enrichDataset_alternateName_witness:
  "hd (features (enrichDataset atlantis_collection))
     \<in> set (features (enrichDataset atlantis_collection)) \<and>
   lookup_get (get_prop (properties (hd (features (enrichDataset atlantis_collection))))
     ''MODERN_NAME'') = None \<and>
   get_prop (properties (hd (features (enrichDataset atlantis_collection)))) ''DWAPARA_NAME'' =
     Some (JStr ''Atlantis'')"
proof -
  have mem: "hd (features (enrichDataset atlantis_collection))
      \<in> set (features (enrichDataset atlantis_collection))"
    by (simp add: enrichDataset_def atlantis_collection_def)
  have look: "lookup_get (get_prop (properties (hd (features (enrichDataset atlantis_collection))))
      ''MODERN_NAME'') = None"
    by code_simp
  have modern: "get_prop (properties (hd (features (enrichDataset atlantis_collection))))
      ''MODERN_NAME'' = Some (JStr ''Atlantis'')"
    by code_simp
  from enrichDataset_alternateName[of atlantis_collection] mem look modern show ?thesis
    by auto
qed

lemma enrichProps_idem: "enrichProps (Some (enrichProps ps)) = enrichProps ps"
proof -
  have m: "modernName_of (Some (enrichProps ps)) = modernName_of ps"
    by (simp add: modernName_of_def get_prop_def enrichProps_def Let_def spread_props_def
        split: option.splits)
  show ?thesis
    unfolding enrichProps_def[of "Some (enrichProps ps)"] Let_def m
    by (auto simp: fun_eq_iff spread_props_def enrichProps_MODERN enrichProps_DWAPARA)
qed

lemma enrichFeature_idem: "enrichFeature (enrichFeature f) = enrichFeature f"
  by (simp add: enrichFeature_def enrichProps_idem)

text \<open>
  Claim C7. The transform is idempotent: applied to its own output it returns that
  output, the derived fields and everything else unchanged.
\<close>

theorem enrichDataset_idempotent: "enrichDataset (enrichDataset c) = enrichDataset c"
  by (simp add: enrichDataset_def enrichFeature_idem)

section \<open>Properties of the render binder\<close>

lemma coalesce_simps [simp]:
  "coalesce None b = b" "coalesce (Some JNull) b = b"
  "coalesce (Some (JStr s)) b = Some (JStr s)" "coalesce (Some (JOther x)) b = Some (JOther x)"
  by (simp_all add: coalesce_def)

lemma coalesce_nullish: "nullish a \<Longrightarrow> coalesce a b = b"
  by (simp add: coalesce_def)

lemma tooltip_text_handleEachFeature:
  "tooltip_text (handleEachFeature str_of same f l) =
     Some (join (map (join_text str_of) (tooltipLines str_of same (properties f))) [CHR 0x0A])"
  by (simp add: tooltip_text_def handleEachFeature_def Let_def on_def bindTooltip_def)

text \<open>
  Enrichment of a property bag whose three name fields are strings, \<^verbatim>\<open>null\<close> or absent,
  as their declared type says, leaves strings in both derived fields.
\<close>

lemma coalesce_string:
  assumes "a = None \<or> a = Some JNull \<or> (\<exists>s. a = Some (JStr s))"
    and "\<exists>s. b = Some (JStr s)"
  shows "\<exists>s. coalesce a b = Some (JStr s)"
  using assms by (auto simp: coalesce_def)

lemma enriched_names_are_strings:
  assumes "\<forall>key \<in> {''NAME_LONG'', ''ADMIN'', ''SOVEREIGNT''}.
             get_prop ps key = None \<or> get_prop ps key = Some JNull \<or>
             (\<exists>s. get_prop ps key = Some (JStr s))"
  shows "\<exists>m d. enrichProps ps ''MODERN_NAME'' = Some (JStr m) \<and>
               enrichProps ps ''DWAPARA_NAME'' = Some (JStr d)"
proof -
  have "\<exists>s. coalesce (get_prop ps ''SOVEREIGNT'') (Some (JStr ''Unknown Realm'')) = Some (JStr s)"
    using assms by (intro coalesce_string) simp_all
  then have "\<exists>s. coalesce (get_prop ps ''ADMIN'')
      (coalesce (get_prop ps ''SOVEREIGNT'') (Some (JStr ''Unknown Realm''))) = Some (JStr s)"
    using assms by (intro coalesce_string) simp_all
  then have "\<exists>s. coalesce (get_prop ps ''NAME_LONG'')
      (coalesce (get_prop ps ''ADMIN'')
        (coalesce (get_prop ps ''SOVEREIGNT'') (Some (JStr ''Unknown Realm'')))) = Some (JStr s)"
    using assms by (intro coalesce_string) simp_all
  moreover have "modernName_of ps = coalesce (get_prop ps ''NAME_LONG'')
      (coalesce (get_prop ps ''ADMIN'')
        (coalesce (get_prop ps ''SOVEREIGNT'') (Some (JStr ''Unknown Realm''))))"
    by (simp add: modernName_of_def coalesce_def)
  ultimately obtain m where m: "modernName_of ps = Some (JStr m)"
    by auto
  have "\<exists>d. dwaparaName_of (Some (JStr m)) = Some (JStr d)"
    by (auto simp: dwaparaName_cases lookup_get_def split: option.splits)
  with m show ?thesis
    by (simp add: enrichProps_MODERN enrichProps_DWAPARA)
qed

text \<open>
  Claim C8. For a feature whose \<^verbatim>\<open>DWAPARA_NAME\<close> and \<^verbatim>\<open>MODERN_NAME\<close> are strings, as
  enrichment leaves them, the tooltip bound by \<^verbatim>\<open>handleEachFeature\<close> has the alternate
  name as its first line; it has the second line \<^verbatim>\<open>Modern: <modernName>\<close> exactly when
  the modern name differs from the alternate name, and is the alternate name alone
  when the two are equal.
\<close>

theorem tooltip_of_enriched:
  assumes "get_prop (properties f) ''DWAPARA_NAME'' = Some (JStr d)"
    and "get_prop (properties f) ''MODERN_NAME'' = Some (JStr m)"
  shows "tooltipLines str_of same (properties f) =
           (if m = d then [Some (JStr d)] else [Some (JStr d), Some (JStr (''Modern: '' @ m))])
         \<and> tooltip_text (handleEachFeature str_of same f l) =
           Some (if m = d then d else d @ [CHR 0x0A] @ ''Modern: '' @ m)"
proof -
  have lines: "tooltipLines str_of same (properties f) =
           (if m = d then [Some (JStr d)] else [Some (JStr d), Some (JStr (''Modern: '' @ m))])"
    using assms by (simp add: tooltipLines_def Let_def strict_neq_def template_text_def)
  show ?thesis
    unfolding tooltip_text_handleEachFeature lines
    by (simp add: join_text_def template_text_def)
qed

theorem tooltip_of_enriched_witness:
  "get_prop (properties (hd (features (enrichDataset india_collection)))) ''DWAPARA_NAME'' =
     Some (JStr ''Bharata Khanda'') \<and>
   get_prop (properties (hd (features (enrichDataset india_collection)))) ''MODERN_NAME'' =
     Some (JStr ''India'') \<and>
   tooltip_text (handleEachFeature (\<lambda>_. []) (=) (hd (features (enrichDataset india_collection)))
       \<lparr>options = Map.empty, tooltip = None, listeners = []\<rparr>) =
     Some (''Bharata Khanda'' @ [CHR 0x0A] @ ''Modern: India'')"
proof -
  have d: "get_prop (properties (hd (features (enrichDataset india_collection)))) ''DWAPARA_NAME'' =
     Some (JStr ''Bharata Khanda'')"
    by code_simp
  have m: "get_prop (properties (hd (features (enrichDataset india_collection)))) ''MODERN_NAME'' =
     Some (JStr ''India'')"
    by code_simp
  from tooltip_of_enriched[OF d m, of "\<lambda>_. []" "(=)" "\<lparr>options = Map.empty, tooltip = None, listeners = []\<rparr>"] d m
  show ?thesis by simp
qed

text \<open>
  Claim C10. For a feature whose properties have no \<^verbatim>\<open>DWAPARA_NAME\<close>, the first line
  of the tooltip is the fallback label \<^verbatim>\<open>Unnamed Dominion\<close> (the text is the label,
  alone or followed by a line break and more); when \<^verbatim>\<open>MODERN_NAME\<close> is absent too, the
  modern name falls back to the same label and the tooltip is that one line.
\<close>

theorem tooltip_of_unenriched:
  assumes "get_prop (properties f) ''DWAPARA_NAME'' = None"
  shows "hd (tooltipLines str_of same (properties f)) = Some (JStr ''Unnamed Dominion'')
         \<and> (\<exists>rest. tooltip_text (handleEachFeature str_of same f l) =
                 Some (''Unnamed Dominion'' @ rest) \<and> (rest = [] \<or> hd rest = CHR 0x0A))
         \<and> (get_prop (properties f) ''MODERN_NAME'' = None \<longrightarrow>
              tooltipLines str_of same (properties f) = [Some (JStr ''Unnamed Dominion'')] \<and>
              tooltip_text (handleEachFeature str_of same f l) = Some ''Unnamed Dominion'')"
  unfolding tooltip_text_handleEachFeature
  using assms
  by (auto simp add: tooltipLines_def Let_def strict_neq_def join_text_def template_text_def
      coalesce_def nullish_def split: option.splits jsval.splits)

theorem tooltip_of_unenriched_witness:
  "get_prop (properties raw_feature) ''DWAPARA_NAME'' = None \<and>
   get_prop (properties raw_feature) ''MODERN_NAME'' = None \<and>
   tooltip_text (handleEachFeature (\<lambda>_. []) (=) raw_feature styled_layer) =
     Some ''Unnamed Dominion''"
proof -
  have d: "get_prop (properties raw_feature) ''DWAPARA_NAME'' = None"
    by (simp add: raw_feature_def get_prop_def)
  have m: "get_prop (properties raw_feature) ''MODERN_NAME'' = None"
    by (simp add: raw_feature_def get_prop_def)
  from tooltip_of_unenriched[OF d, of "\<lambda>_. []" "(=)" styled_layer] d m show ?thesis
    by simp
qed

lemma listeners_setStyle [simp]: "listeners (setStyle l st) = listeners l"
  by (simp add: setStyle_def)

lemma fire_bound:
  assumes "listeners l = [(''mouseover'', FeatureHover), (''mouseout'', FeatureLeave)]"
  shows "fire l ''mouseover'' = handleFeatureHover l" "fire l ''mouseout'' = handleFeatureLeave l"
  using assms by (simp_all add: fire_def)



lemma dom_defaultStyle: "dom defaultStyle = style_keys"
  by (auto simp: defaultStyle_def style_keys_def split: if_splits)

lemma dom_hoverStyle: "dom hoverStyle = style_keys"
  by (auto simp: hoverStyle_def defaultStyle_def style_keys_def split: if_splits)

lemma map_add_absorb: "dom b = dom c \<Longrightarrow> (a ++ b) ++ c = a ++ c"
  by (auto simp: fun_eq_iff map_add_def split: option.splits)

lemma map_add_restrict_dom: "restrict_map (a ++ b) (dom b) = b"
  by (auto simp: fun_eq_iff map_add_def restrict_map_def split: option.splits)

lemma listeners_fire [simp]: "listeners (fire l t) = listeners l"
proof -
  have "listeners (foldl (\<lambda>target (t', h). if t' = t then call_handler h target else target) l0 hs)
          = listeners l0" for l0 hs
  proof (induction hs arbitrary: l0)
    case Nil
    then show ?case by simp
  next
    case (Cons a hs)
    obtain t' h where a: "a = (t', h)" by (cases a)
    show ?case
      by (cases h) (simp_all add: a Cons.IH handleFeatureHover_def handleFeatureLeave_def)
  qed
  then show ?thesis by (simp add: fire_def)
qed

lemma listeners_handleEachFeature:
  "listeners l0 = [] \<Longrightarrow>
   listeners (handleEachFeature str_of same f l0) =
     [(''mouseover'', FeatureHover), (''mouseout'', FeatureLeave)]"
  by (simp add: handleEachFeature_def Let_def on_def bindTooltip_def)

lemma options_handleEachFeature: "options (handleEachFeature str_of same f l0) = options l0"
  by (simp add: handleEachFeature_def Let_def on_def bindTooltip_def)

lemma apply_events_snoc: "apply_events l (evs @ [e]) = fire (apply_events l evs) e"
  by (simp add: apply_events_def)

lemma listeners_apply_events [simp]: "listeners (apply_events l evs) = listeners l"
  by (induction evs rule: rev_induct) (simp_all add: apply_events_def)

lemma options_apply_events:
  assumes bound: "listeners l = [(''mouseover'', FeatureHover), (''mouseout'', FeatureLeave)]"
    and "evs \<noteq> []" and "set evs \<subseteq> {''mouseover'', ''mouseout''}"
  shows "options (apply_events l evs) =
           options l ++ (if last evs = ''mouseout'' then defaultStyle else hoverStyle)"
  using assms(2,3)
proof (induction evs rule: rev_induct)
  case Nil
  then show ?case by simp
next
  case (snoc e evs)
  let ?l = "apply_events l evs"
  have b: "listeners ?l = [(''mouseover'', FeatureHover), (''mouseout'', FeatureLeave)]"
    using bound by simp
  have prev: "\<exists>st. options ?l = options l ++ st \<and> dom st = style_keys" if "evs \<noteq> []"
  proof -
    from that snoc have "options ?l =
        options l ++ (if last evs = ''mouseout'' then defaultStyle else hoverStyle)"
      by simp
    moreover have "dom (if last evs = ''mouseout'' then defaultStyle else hoverStyle) = style_keys"
      by (simp add: dom_defaultStyle dom_hoverStyle)
    ultimately show ?thesis by blast
  qed
  have e: "e = ''mouseover'' \<or> e = ''mouseout''"
    using snoc.prems by auto
  have step: "options (fire ?l e) =
      options ?l ++ (if e = ''mouseout'' then defaultStyle else hoverStyle)"
    using e fire_bound[OF b]
    by (auto simp: handleFeatureHover_def handleFeatureLeave_def setStyle_def featureStyle_def)
  have "options ?l ++ (if e = ''mouseout'' then defaultStyle else hoverStyle) =
        options l ++ (if e = ''mouseout'' then defaultStyle else hoverStyle)"
  proof (cases "evs = []")
    case True
    then show ?thesis by (simp add: apply_events_def)
  next
    case False
    with prev obtain st where st: "options ?l = options l ++ st" "dom st = style_keys"
      by auto
    show ?thesis
      unfolding st(1)
      by (rule map_add_absorb) (simp add: st(2) dom_defaultStyle dom_hoverStyle)
  qed
  with step show ?case
    by (simp add: apply_events_snoc)
qed

lemma hover_leave_events:
  assumes "listeners l0 = []" and "evs \<noteq> []" and "set evs \<subseteq> {''mouseover'', ''mouseout''}"
  shows "options (apply_events (handleEachFeature str_of same f l0) evs) =
           options l0 ++ (if last evs = ''mouseout'' then defaultStyle else hoverStyle)
         \<and> restrict_map (options (apply_events (handleEachFeature str_of same f l0) evs)) style_keys =
             (if last evs = ''mouseout'' then defaultStyle else hoverStyle)
         \<and> (restrict_map (options l0) style_keys = defaultStyle \<and> last evs = ''mouseout'' \<longrightarrow>
              options (apply_events (handleEachFeature str_of same f l0) evs) = options l0)
         \<and> hoverStyle = defaultStyle(''weight'' \<mapsto> ONum (25 / 10), ''fillOpacity'' \<mapsto> ONum (38 / 100))
         \<and> defaultStyle = [''color'' \<mapsto> OStr ''#38bdf8'', ''weight'' \<mapsto> ONum 1,
               ''fillColor'' \<mapsto> OStr ''#0ea5e9'', ''fillOpacity'' \<mapsto> ONum (22 / 100)]"
proof -
  let ?l = "handleEachFeature str_of same f l0"
  have o: "options (apply_events ?l evs) =
           options l0 ++ (if last evs = ''mouseout'' then defaultStyle else hoverStyle)"
    using options_apply_events[OF listeners_handleEachFeature[OF assms(1), of str_of same f] assms(2,3)]
    by (simp add: options_handleEachFeature)
  have r: "restrict_map (options (apply_events ?l evs)) style_keys =
             (if last evs = ''mouseout'' then defaultStyle else hoverStyle)"
    unfolding o using map_add_restrict_dom[of "options l0" defaultStyle]
      map_add_restrict_dom[of "options l0" hoverStyle]
    by (simp add: dom_defaultStyle dom_hoverStyle)
  have restored: "options l0 ++ defaultStyle = options l0" if "restrict_map (options l0) style_keys = defaultStyle"
  proof
    fix k
    show "(options l0 ++ defaultStyle) k = options l0 k"
    proof (cases "k \<in> style_keys")
      case True
      then have "defaultStyle k = options l0 k"
        using that by (metis restrict_in)
      then show ?thesis
        by (simp add: map_add_def split: option.splits)
    next
      case False
      then have "defaultStyle k = None"
        using dom_defaultStyle by blast
      then show ?thesis by (simp add: map_add_def)
    qed
  qed
  show ?thesis
    using o r restored by (auto simp: hoverStyle_def defaultStyle_def)
qed




lemma dom_style_after: "dom (style_after h) = style_keys"
  by (cases h) (simp_all add: style_after_def dom_defaultStyle dom_hoverStyle)

lemma options_call_handler: "options (call_handler h l) = options l ++ style_after h"
  by (cases h)
     (simp_all add: style_after_def handleFeatureHover_def handleFeatureLeave_def setStyle_def
        featureStyle_def)

lemma options_apply_handlers:
  "hs \<noteq> [] \<Longrightarrow> options (apply_handlers l hs) = options l ++ style_after (last hs)"
proof (induction hs rule: rev_induct)
  case Nil
  then show ?case by simp
next
  case (snoc h hs)
  show ?case
  proof (cases "hs = []")
    case True
    then show ?thesis
      by (simp add: apply_handlers_def options_call_handler)
  next
    case False
    then have "options (apply_handlers l hs) = options l ++ style_after (last hs)"
      by (rule snoc.IH)
    then have "options (apply_handlers l (hs @ [h])) =
        (options l ++ style_after (last hs)) ++ style_after h"
      by (simp add: apply_handlers_def options_call_handler)
    also have "\<dots> = options l ++ style_after h"
      by (rule map_add_absorb) (simp add: dom_style_after)
    finally show ?thesis by simp
  qed
qed

lemma map_add_same_restrict:
  assumes "restrict_map a (dom b) = b"
  shows "a ++ b = a"
proof
  fix k
  show "(a ++ b) k = a k"
  proof (cases "k \<in> dom b")
    case True
    then have "b k = a k"
      using assms by (metis restrict_in)
    then show ?thesis
      by (simp add: map_add_def split: option.splits)
  next
    case False
    then show ?thesis by (simp add: map_add_def domIff)
  qed
qed

text \<open>
  Claim C9. After any run of calls of the hover-enter and hover-exit handlers on a
  layer that ends in a leave, the four style options have the values of the default
  style, and after a run that ends in an enter those of the emphasised style (weight
  2.5 and fill opacity 0.38 over the same colours); no other option changes, so a layer
  that was drawn with the default style is exactly as before. The binder registers the
  enter handler for \<^verbatim>\<open>mouseover\<close> and the leave handler for \<^verbatim>\<open>mouseout\<close>.
\<close>

theorem hover_leave_restores:
  assumes "hs \<noteq> []"
  shows "options (apply_handlers l hs) =
           options l ++ (if last hs = FeatureLeave then defaultStyle else hoverStyle)
         \<and> restrict_map (options (apply_handlers l hs)) style_keys =
             (if last hs = FeatureLeave then defaultStyle else hoverStyle)
         \<and> (restrict_map (options l) style_keys = defaultStyle \<and> last hs = FeatureLeave \<longrightarrow>
              options (apply_handlers l hs) = options l)
         \<and> hoverStyle = [''color'' \<mapsto> OStr ''#38bdf8'', ''weight'' \<mapsto> ONum (25 / 10),
               ''fillColor'' \<mapsto> OStr ''#0ea5e9'', ''fillOpacity'' \<mapsto> ONum (38 / 100)]
         \<and> defaultStyle = [''color'' \<mapsto> OStr ''#38bdf8'', ''weight'' \<mapsto> ONum 1,
               ''fillColor'' \<mapsto> OStr ''#0ea5e9'', ''fillOpacity'' \<mapsto> ONum (22 / 100)]
         \<and> listeners (handleEachFeature str_of same f l) =
               listeners l @ [(''mouseover'', FeatureHover), (''mouseout'', FeatureLeave)]"
proof -
  have sa: "style_after (last hs) = (if last hs = FeatureLeave then defaultStyle else hoverStyle)"
    by (cases "last hs") (simp_all add: style_after_def)
  have o: "options (apply_handlers l hs) =
           options l ++ (if last hs = FeatureLeave then defaultStyle else hoverStyle)"
    using options_apply_handlers[OF assms, of l] by (simp add: sa)
  have r: "restrict_map (options (apply_handlers l hs)) style_keys =
             (if last hs = FeatureLeave then defaultStyle else hoverStyle)"
    unfolding o using map_add_restrict_dom[of "options l" defaultStyle]
      map_add_restrict_dom[of "options l" hoverStyle]
    by (simp add: dom_defaultStyle dom_hoverStyle)
  have restored: "options l ++ defaultStyle = options l"
    if "restrict_map (options l) style_keys = defaultStyle"
    by (rule map_add_same_restrict) (simp add: dom_defaultStyle that)
  have h: "hoverStyle = [''color'' \<mapsto> OStr ''#38bdf8'', ''weight'' \<mapsto> ONum (25 / 10),
               ''fillColor'' \<mapsto> OStr ''#0ea5e9'', ''fillOpacity'' \<mapsto> ONum (38 / 100)]"
    by (auto simp: hoverStyle_def defaultStyle_def fun_eq_iff)
  have w: "listeners (handleEachFeature str_of same f l) =
               listeners l @ [(''mouseover'', FeatureHover), (''mouseout'', FeatureLeave)]"
    by (simp add: handleEachFeature_def Let_def on_def bindTooltip_def)
  show ?thesis
    using o r restored h w by (simp add: defaultStyle_def)
qed


theorem hover_leave_restores_witness:
  "[FeatureHover, FeatureHover, FeatureLeave] \<noteq> [] \<and>
   restrict_map (options styled_layer) style_keys = defaultStyle \<and>
   last [FeatureHover, FeatureHover, FeatureLeave] = FeatureLeave \<and>
   options (apply_handlers styled_layer [FeatureHover, FeatureHover, FeatureLeave]) =
     options styled_layer"
proof -
  have ne: "[FeatureHover, FeatureHover, FeatureLeave] \<noteq> []" by simp
  have d: "restrict_map (options styled_layer) style_keys = defaultStyle"
    by (auto simp: styled_layer_def style_keys_def defaultStyle_def fun_eq_iff restrict_map_def)
  from hover_leave_restores[OF ne, where l = styled_layer and str_of = "\<lambda>_::unit. []"
      and same = "(=)" and f = "\<lparr>geometry = (), properties = None\<rparr>"] d
  have "last [FeatureHover, FeatureHover, FeatureLeave] = FeatureLeave \<longrightarrow>
     options (apply_handlers styled_layer [FeatureHover, FeatureHover, FeatureLeave]) =
       options styled_layer"
    by blast
  with ne d show ?thesis
    by simp
qed

section \<open>Properties of the transform on a store\<close>

lemma store_ok_lt: "store_ok h \<Longrightarrow> cells h a = Some c \<Longrightarrow> a < next_free h"
  by (auto simp: store_ok_def)

lemma store_ok_restrict:
  assumes "store_ok h"
  shows "restrict_map (cells h) {..<next_free h} = cells h"
proof
  fix a
  show "restrict_map (cells h) {..<next_free h} a = cells h a"
  proof (cases "cells h a")
    case None
    then show ?thesis by (simp add: restrict_map_def)
  next
    case (Some c)
    then have "a < next_free h"
      using assms by (rule store_ok_lt[rotated])
    then show ?thesis by simp
  qed
qed

lemma store_ext_below: "store_ext h h' \<Longrightarrow> a < next_free h \<Longrightarrow> cells h' a = cells h a"
  by (metis lessThan_iff restrict_in store_ext_def)

lemma store_ext_cell: "store_ext h h' \<Longrightarrow> cells h a = Some c \<Longrightarrow> cells h' a = Some c"
  by (metis option.distinct(1) restrict_map_def store_ext_def)

lemma store_ext_trans:
  assumes "store_ext h h1" and "store_ext h1 h2"
  shows "store_ext h h2"
proof -
  have "restrict_map (cells h2) {..<next_free h} = cells h"
  proof
    fix a
    show "restrict_map (cells h2) {..<next_free h} a = cells h a"
    proof (cases "a < next_free h")
      case True
      then have "a < next_free h1"
        using assms(1) by (simp add: store_ext_def)
      then have "cells h2 a = cells h1 a"
        using assms(2) by (rule store_ext_below[rotated])
      also have "\<dots> = cells h a"
        using assms(1) True by (rule store_ext_below)
      finally show ?thesis
        using True by simp
    next
      case False
      then have "cells h a = None"
        using assms(1) by (metis lessThan_iff restrict_out store_ext_def)
      with False show ?thesis by simp
    qed
  qed
  then show ?thesis
    using assms by (simp add: store_ext_def)
qed

lemma store_ext_alloc:
  assumes "store_ok h"
  shows "store_ext h (fst (alloc h c))"
proof -
  have "restrict_map ((cells h)(next_free h \<mapsto> c)) {..<next_free h} =
        restrict_map (cells h) {..<next_free h}"
    by (auto simp: restrict_map_def fun_eq_iff)
  then have "restrict_map ((cells h)(next_free h \<mapsto> c)) {..<next_free h} = cells h"
    using store_ok_restrict[OF assms] by simp
  moreover have "store_ok (fst (alloc h c))"
    using assms by (auto simp: store_ok_def alloc_def split: if_splits)
  ultimately show ?thesis
    by (simp add: store_ext_def alloc_def)
qed

lemma load_props_ext:
  "store_ext h h' \<Longrightarrow> load_props h r = Some ps \<Longrightarrow> load_props h' r = Some ps"
  by (auto simp: load_props_def split: option.splits cell.splits dest: store_ext_cell)

lemma read_feature_SomeD:
  assumes "read_feature h f = Some v"
  obtains feature g ps where
    "cells h f = Some (FeatureCell feature)"
    "cells h (geometry_ref feature) = Some (GeometryCell g)"
    "load_props h (properties_ref feature) = Some ps"
    "v = \<lparr>geometry = g, properties = ps, \<dots> = feature_obj.more feature\<rparr>"
  using assms
  by (auto simp: read_feature_def split: option.splits cell.splits)

lemma read_feature_ext:
  assumes "store_ext h h'" and "read_feature h f = Some v"
  shows "read_feature h' f = Some v"
proof -
  from assms(2) obtain feature g ps where
    f: "cells h f = Some (FeatureCell feature)"
    and g: "cells h (geometry_ref feature) = Some (GeometryCell g)"
    and p: "load_props h (properties_ref feature) = Some ps"
    and v: "v = \<lparr>geometry = g, properties = ps, \<dots> = feature_obj.more feature\<rparr>"
    by (rule read_feature_SomeD)
  show ?thesis
    using store_ext_cell[OF assms(1) f] store_ext_cell[OF assms(1) g] load_props_ext[OF assms(1) p]
    by (simp add: read_feature_def v)
qed

lemma read_features_ext:
  "store_ext h h' \<Longrightarrow> read_features h fs = Some vs \<Longrightarrow> read_features h' fs = Some vs"
proof (induction fs arbitrary: vs)
  case Nil
  then show ?case by simp
next
  case (Cons f fs)
  from Cons.prems(2) obtain v vs' where
    v: "read_feature h f = Some v" and vs': "read_features h fs = Some vs'" and "vs = v # vs'"
    by (auto split: option.splits)
  then show ?case
    using read_feature_ext[OF Cons.prems(1) v] Cons.IH[OF Cons.prems(1) vs'] by simp
qed

lemma feature_spine_ext:
  "store_ext h h' \<Longrightarrow> cells h f = Some c \<Longrightarrow> feature_spine h' f = feature_spine h f"
  by (simp add: feature_spine_def store_ext_cell)

lemma feature_geometry_ext:
  "store_ext h h' \<Longrightarrow> cells h f = Some c \<Longrightarrow> feature_geometry h' f = feature_geometry h f"
  by (simp add: feature_geometry_def store_ext_cell)

lemma enrichFeature_st_correct:
  assumes ok: "store_ok h" and rd: "read_feature h f = Some v"
  obtains h' f' where
    "enrichFeature_st h f = Some (h', f')"
    "store_ext h h'"
    "read_feature h' f' = Some (enrichFeature v)"
    "set (feature_spine h' f') \<subseteq> {next_free h..<next_free h'}"
    "feature_geometry h' f' = feature_geometry h f"
proof -
  from rd obtain feature g ps where
    f: "cells h f = Some (FeatureCell feature)"
    and g: "cells h (geometry_ref feature) = Some (GeometryCell g)"
    and p: "load_props h (properties_ref feature) = Some ps"
    and v: "v = \<lparr>geometry = g, properties = ps, \<dots> = feature_obj.more feature\<rparr>"
    by (rule read_feature_SomeD)
  define n where "n = next_free h"
  define h1 where "h1 = fst (alloc h (PropsCell (enrichProps ps)))"
  define feature' where "feature' = feature\<lparr>properties_ref := Some n\<rparr>"
  define h' where "h' = fst (alloc h1 (FeatureCell feature'))"
  have e1: "store_ext h h1"
    unfolding h1_def using ok by (rule store_ext_alloc)
  then have ok1: "store_ok h1"
    by (simp add: store_ext_def)
  have e2: "store_ext h1 h'"
    unfolding h'_def using ok1 by (rule store_ext_alloc)
  have n1: "next_free h1 = Suc n" and c1: "cells h1 = (cells h)(n \<mapsto> PropsCell (enrichProps ps))"
    by (simp_all add: h1_def alloc_def n_def)
  have n': "next_free h' = Suc (Suc n)"
    and c': "cells h' = (cells h1)(Suc n \<mapsto> FeatureCell feature')"
    by (simp_all add: h'_def alloc_def n1)
  have run: "enrichFeature_st h f = Some (h', Suc n)"
    by (simp add: enrichFeature_st_def f p alloc_def Let_def h'_def h1_def feature'_def n_def)
  have gn: "geometry_ref feature < n"
    using store_ok_lt[OF ok g] by (simp add: n_def)
  have g': "cells h' (geometry_ref feature) = Some (GeometryCell g)"
    using gn by (simp add: c' c1 g)
  have p': "load_props h' (Some n) = Some (Some (enrichProps ps))"
    by (simp add: load_props_def c' c1)
  have rd': "read_feature h' (Suc n) = Some (enrichFeature v)"
    using g' p' by (simp add: read_feature_def c' feature'_def v enrichFeature_def)
  have sp: "set (feature_spine h' (Suc n)) \<subseteq> {next_free h..<next_free h'}"
    by (auto simp: feature_spine_def c' feature'_def n' n_def)
  have ge: "feature_geometry h' (Suc n) = feature_geometry h f"
    by (simp add: feature_geometry_def c' feature'_def f)
  show thesis
    using that[OF run store_ext_trans[OF e1 e2] rd' sp ge] .
qed


lemma read_features_cells:
  "read_features h fs = Some vs \<Longrightarrow> f \<in> set fs \<Longrightarrow> \<exists>c. cells h f = Some c"
proof (induction fs arbitrary: vs)
  case Nil
  then show ?case by simp
next
  case (Cons a fs)
  from Cons.prems(1) obtain v vs' where
    v: "read_feature h a = Some v" and vs': "read_features h fs = Some vs'"
    by (auto split: option.splits)
  show ?case
  proof (cases "f = a")
    case True
    with v show ?thesis
      by (auto elim: read_feature_SomeD)
  next
    case False
    with Cons.prems(2) have "f \<in> set fs" by simp
    then show ?thesis
      using Cons.IH[OF vs'] by simp
  qed
qed

lemma feature_geometry_map_ext:
  assumes "store_ext h h'" and "read_features h fs = Some vs"
  shows "map (feature_geometry h') fs = map (feature_geometry h) fs"
proof (rule map_cong[OF refl])
  fix f assume "f \<in> set fs"
  then obtain c where "cells h f = Some c"
    using read_features_cells[OF assms(2)] by blast
  then show "feature_geometry h' f = feature_geometry h f"
    using assms(1) by (rule feature_geometry_ext[rotated])
qed

lemma feature_spine_map_ext:
  assumes "store_ext h h'" and "read_features h fs = Some vs"
  shows "map (feature_spine h') fs = map (feature_spine h) fs"
proof (rule map_cong[OF refl])
  fix f assume "f \<in> set fs"
  then obtain c where "cells h f = Some c"
    using read_features_cells[OF assms(2)] by blast
  then show "feature_spine h' f = feature_spine h f"
    using assms(1) by (rule feature_spine_ext[rotated])
qed

lemma enrichFeatures_st_correct:
  assumes "store_ok h" and "read_features h fs = Some vs"
  shows "\<exists>h' fs'. enrichFeatures_st h fs = Some (h', fs') \<and> store_ext h h' \<and>
           read_features h' fs' = Some (map enrichFeature vs) \<and>
           set (concat (map (feature_spine h') fs')) \<subseteq> {next_free h..<next_free h'} \<and>
           concat (map (feature_geometry h') fs') = concat (map (feature_geometry h) fs)"
  using assms
proof (induction fs arbitrary: h vs)
  case Nil
  then show ?case
    by (simp add: store_ext_def store_ok_restrict)
next
  case (Cons f fs)
  from Cons.prems(2) obtain v vs0 where
    v: "read_feature h f = Some v" and vs0: "read_features h fs = Some vs0" and vs: "vs = v # vs0"
    by (auto split: option.splits)
  from Cons.prems(1) v obtain h1 f1 where
    run1: "enrichFeature_st h f = Some (h1, f1)"
    and e1: "store_ext h h1"
    and rd1: "read_feature h1 f1 = Some (enrichFeature v)"
    and sp1: "set (feature_spine h1 f1) \<subseteq> {next_free h..<next_free h1}"
    and ge1: "feature_geometry h1 f1 = feature_geometry h f"
    by (rule enrichFeature_st_correct)
  have ok1: "store_ok h1"
    using e1 by (simp add: store_ext_def)
  have vs1: "read_features h1 fs = Some vs0"
    using e1 vs0 by (rule read_features_ext)
  from Cons.IH[OF ok1 vs1] obtain h2 fs2 where
    run2: "enrichFeatures_st h1 fs = Some (h2, fs2)"
    and e2: "store_ext h1 h2"
    and rd2: "read_features h2 fs2 = Some (map enrichFeature vs0)"
    and sp2: "set (concat (map (feature_spine h2) fs2)) \<subseteq> {next_free h1..<next_free h2}"
    and ge2: "concat (map (feature_geometry h2) fs2) = concat (map (feature_geometry h1) fs)"
    by blast
  have n: "next_free h \<le> next_free h1" "next_free h1 \<le> next_free h2"
    using e1 e2 by (simp_all add: store_ext_def)
  from rd1 obtain c1 where c1: "cells h1 f1 = Some c1"
    by (auto elim: read_feature_SomeD)
  have run: "enrichFeatures_st h (f # fs) = Some (h2, f1 # fs2)"
    by (simp add: run1 run2)
  have e: "store_ext h h2"
    using e1 e2 by (rule store_ext_trans)
  have rd: "read_features h2 (f1 # fs2) = Some (map enrichFeature vs)"
    using read_feature_ext[OF e2 rd1] rd2 by (simp add: vs)
  have "set (feature_spine h2 f1) \<subseteq> {next_free h..<next_free h2}"
    using sp1 n feature_spine_ext[OF e2 c1] by auto
  moreover have "set (concat (map (feature_spine h2) fs2)) \<subseteq> {next_free h..<next_free h2}"
    using sp2 n by auto
  ultimately have sp:
    "set (concat (map (feature_spine h2) (f1 # fs2))) \<subseteq> {next_free h..<next_free h2}"
    by simp
  have ge: "concat (map (feature_geometry h2) (f1 # fs2)) =
      concat (map (feature_geometry h) (f # fs))"
    using feature_geometry_ext[OF e2 c1] ge1 ge2 feature_geometry_map_ext[OF e1 vs0]
    by simp
  from run e rd sp ge show ?case by blast
qed

lemma read_collection_SomeD:
  assumes "read_collection h c = Some v"
  obtains collection fs vs where
    "cells h c = Some (CollectionCell collection)"
    "cells h (features_ref collection) = Some (ArrayCell fs)"
    "read_features h fs = Some vs"
    "v = \<lparr>features = vs, \<dots> = collection_obj.more collection\<rparr>"
  using assms
  by (auto simp: read_collection_def split: option.splits cell.splits)

lemma read_collection_ext:
  assumes "store_ext h h'" and "read_collection h c = Some v"
  shows "read_collection h' c = Some v"
proof -
  from assms(2) obtain collection fs vs where
    c: "cells h c = Some (CollectionCell collection)"
    and a: "cells h (features_ref collection) = Some (ArrayCell fs)"
    and r: "read_features h fs = Some vs"
    and v: "v = \<lparr>features = vs, \<dots> = collection_obj.more collection\<rparr>"
    by (rule read_collection_SomeD)
  show ?thesis
    using store_ext_cell[OF assms(1) c] store_ext_cell[OF assms(1) a]
      read_features_ext[OF assms(1) r]
    by (simp add: read_collection_def v)
qed

lemma enrichDataset_st_correct:
  assumes ok: "store_ok h" and rd: "read_collection h c = Some v"
  shows "\<exists>h' c'. enrichDataset_st h c = Some (h', c') \<and> store_ext h h' \<and>
           read_collection h' c' = Some (enrichDataset v) \<and>
           set (spine_addrs h' c') \<subseteq> {next_free h..<next_free h'} \<and>
           geometry_addrs h' c' = geometry_addrs h c"
proof -
  from rd obtain collection fs vs where
    c: "cells h c = Some (CollectionCell collection)"
    and a: "cells h (features_ref collection) = Some (ArrayCell fs)"
    and r: "read_features h fs = Some vs"
    and v: "v = \<lparr>features = vs, \<dots> = collection_obj.more collection\<rparr>"
    by (rule read_collection_SomeD)
  from enrichFeatures_st_correct[OF ok r] obtain h1 fs1 where
    run1: "enrichFeatures_st h fs = Some (h1, fs1)"
    and e1: "store_ext h h1"
    and rd1: "read_features h1 fs1 = Some (map enrichFeature vs)"
    and sp1: "set (concat (map (feature_spine h1) fs1)) \<subseteq> {next_free h..<next_free h1}"
    and ge1: "concat (map (feature_geometry h1) fs1) = concat (map (feature_geometry h) fs)"
    by blast
  define n where "n = next_free h1"
  define h2 where "h2 = fst (alloc h1 (ArrayCell fs1))"
  define collection' where "collection' = collection\<lparr>features_ref := n\<rparr>"
  define h' where "h' = fst (alloc h2 (CollectionCell collection'))"
  have ok1: "store_ok h1"
    using e1 by (simp add: store_ext_def)
  have e2: "store_ext h1 h2"
    unfolding h2_def using ok1 by (rule store_ext_alloc)
  then have ok2: "store_ok h2"
    by (simp add: store_ext_def)
  have e3: "store_ext h2 h'"
    unfolding h'_def using ok2 by (rule store_ext_alloc)
  have e13: "store_ext h1 h'"
    using e2 e3 by (rule store_ext_trans)
  have e: "store_ext h h'"
    using e1 e13 by (rule store_ext_trans)
  have n2: "next_free h2 = Suc n" and c2: "cells h2 = (cells h1)(n \<mapsto> ArrayCell fs1)"
    by (simp_all add: h2_def alloc_def n_def)
  have n': "next_free h' = Suc (Suc n)"
    and c': "cells h' = (cells h2)(Suc n \<mapsto> CollectionCell collection')"
    by (simp_all add: h'_def alloc_def n2)
  have nn: "next_free h \<le> n"
    using e1 by (simp add: store_ext_def n_def)
  have run: "enrichDataset_st h c = Some (h', Suc n)"
    by (simp add: enrichDataset_st_def c a run1 alloc_def Let_def h'_def h2_def collection'_def
        n_def)
  have arr: "cells h' n = Some (ArrayCell fs1)"
    by (simp add: c' c2)
  have col: "cells h' (Suc n) = Some (CollectionCell collection')"
    by (simp add: c')
  have rd': "read_collection h' (Suc n) = Some (enrichDataset v)"
    using read_features_ext[OF e13 rd1]
    by (simp add: read_collection_def col arr collection'_def v enrichDataset_def)
  have ao': "array_of h' (Suc n) = fs1"
    by (simp add: array_of_def col arr collection'_def)
  have ao: "array_of h c = fs"
    by (simp add: array_of_def c a)
  have "map (feature_spine h') fs1 = map (feature_spine h1) fs1"
    using e13 rd1 by (rule feature_spine_map_ext)
  moreover have "set (concat (map (feature_spine h1) fs1)) \<subseteq> {next_free h..<n}"
    using sp1 by (simp add: n_def)
  ultimately have "set (concat (map (feature_spine h') fs1)) \<subseteq> {next_free h..<Suc (Suc n)}"
    by auto
  then have sp: "set (spine_addrs h' (Suc n)) \<subseteq> {next_free h..<next_free h'}"
    using nn by (simp add: spine_addrs_def col ao' collection'_def n')
  have gm: "map (feature_geometry h') fs1 = map (feature_geometry h1) fs1"
    using e13 rd1 by (rule feature_geometry_map_ext)
  have ge: "geometry_addrs h' (Suc n) = geometry_addrs h c"
    by (simp only: geometry_addrs_def ao ao' gm ge1)
  from run e rd' sp ge show ?thesis by blast
qed


lemma original_props_enrichFeature: "original_props (enrichFeature f) = original_props f"
  by (auto simp: original_props_def enrichFeature_def spread_props_def enrichProps_def Let_def
      restrict_map_def fun_eq_iff)

lemma read_feature_addrs:
  assumes "store_ok h" and "read_feature h f = Some v"
  shows "set (feature_spine h f) \<union> set (feature_geometry h f) \<subseteq> {..<next_free h}"
proof -
  from assms(2) obtain feature g ps where
    f: "cells h f = Some (FeatureCell feature)"
    and g: "cells h (geometry_ref feature) = Some (GeometryCell g)"
    and p: "load_props h (properties_ref feature) = Some ps"
    by (rule read_feature_SomeD)
  have "p' < next_free h" if "properties_ref feature = Some p'" for p'
    using p that store_ok_lt[OF assms(1), of p']
    by (auto simp: load_props_def split: option.splits cell.splits)
  then show ?thesis
    using store_ok_lt[OF assms(1) f] store_ok_lt[OF assms(1) g]
    by (auto simp: feature_spine_def feature_geometry_def f split: option.splits)
qed

lemma read_features_addrs:
  assumes "store_ok h"
  shows "read_features h fs = Some vs \<Longrightarrow>
         set (concat (map (feature_spine h) fs)) \<union> set (concat (map (feature_geometry h) fs))
           \<subseteq> {..<next_free h}"
proof (induction fs arbitrary: vs)
  case Nil
  then show ?case by simp
next
  case (Cons f fs)
  from Cons.prems obtain v vs0 where
    v: "read_feature h f = Some v" and vs0: "read_features h fs = Some vs0"
    by (auto split: option.splits)
  show ?case
    using read_feature_addrs[OF assms v] Cons.IH[OF vs0] by auto
qed

lemma read_collection_addrs:
  assumes "store_ok h" and "read_collection h c = Some v"
  shows "set (collection_addrs h c) \<subseteq> {..<next_free h}"
proof -
  from assms(2) obtain collection fs vs where
    c: "cells h c = Some (CollectionCell collection)"
    and a: "cells h (features_ref collection) = Some (ArrayCell fs)"
    and r: "read_features h fs = Some vs"
    by (rule read_collection_SomeD)
  have ao: "array_of h c = fs"
    by (simp add: array_of_def c a)
  show ?thesis
    using store_ok_lt[OF assms(1) c] store_ok_lt[OF assms(1) a] read_features_addrs[OF assms(1) r]
    by (auto simp: collection_addrs_def spine_addrs_def geometry_addrs_def c ao)
qed

text \<open>
  Claim C6, amended. On a store in order that holds a collection at \<open>c\<close>, the
  transform succeeds and changes no object of the store, so the input collection and
  its features read as before. The collection, the array, the features and the
  property bags of the output are new objects, none of them an object of the input. The
  geometries are not copied: the output's features refer to the geometry objects of
  the input's features, and these are the objects the output shares with the input.
  The output reads as \<open>enrichDataset\<close> of the input, and every property other than the
  two derived ones, the geometry and the other members are carried over unchanged.
\<close>

theorem enrichDataset_st_frame:
  assumes "store_ok h" and "read_collection h c = Some v"
  shows "\<exists>h' c'. enrichDataset_st h c = Some (h', c') \<and>
           restrict_map (cells h') {..<next_free h} = cells h \<and>
           read_collection h' c = Some v \<and>
           set (spine_addrs h' c') \<subseteq> {next_free h..<next_free h'} \<and>
           set (spine_addrs h' c') \<inter> set (collection_addrs h c) = {} \<and>
           geometry_addrs h' c' = geometry_addrs h c \<and>
           shared_addrs h c = geometry_addrs h c \<and>
           read_collection h' c' = Some (enrichDataset v) \<and>
           map original_props (features (enrichDataset v)) = map original_props (features v) \<and>
           map geometry (features (enrichDataset v)) = map geometry (features v) \<and>
           map feature.more (features (enrichDataset v)) = map feature.more (features v) \<and>
           collection.more (enrichDataset v) = collection.more v"
proof -
  from enrichDataset_st_correct[OF assms] obtain h' c' where
    run: "enrichDataset_st h c = Some (h', c')"
    and e: "store_ext h h'"
    and rd: "read_collection h' c' = Some (enrichDataset v)"
    and sp: "set (spine_addrs h' c') \<subseteq> {next_free h..<next_free h'}"
    and ge: "geometry_addrs h' c' = geometry_addrs h c"
    by blast
  have old: "set (collection_addrs h c) \<subseteq> {..<next_free h}"
    using assms by (rule read_collection_addrs)
  have frame: "restrict_map (cells h') {..<next_free h} = cells h"
    using e by (simp add: store_ext_def)
  have same: "read_collection h' c = Some v"
    using e assms(2) by (rule read_collection_ext)
  have disj: "set (spine_addrs h' c') \<inter> set (collection_addrs h c) = {}"
    using sp old by fastforce
  have f1: "filter (\<lambda>a. a \<in> set (collection_addrs h c)) (spine_addrs h' c') = []"
    using disj by (auto simp: filter_empty_conv)
  have f2: "filter (\<lambda>a. a \<in> set (collection_addrs h c)) (geometry_addrs h c) = geometry_addrs h c"
    by (simp add: collection_addrs_def)
  have sh: "shared_addrs h c = geometry_addrs h c"
    by (simp add: shared_addrs_def run collection_addrs_def[of h' c'] ge f1 f2)
  have carried: "map original_props (features (enrichDataset v)) = map original_props (features v)"
    by (simp add: enrichDataset_def original_props_enrichFeature)
  have rest: "map geometry (features (enrichDataset v)) = map geometry (features v)"
    "map feature.more (features (enrichDataset v)) = map feature.more (features v)"
    "collection.more (enrichDataset v) = collection.more v"
    by (simp_all add: enrichDataset_def enrichFeature_def comp_def)
  from run frame same sp disj ge sh rd carried rest show ?thesis
    by blast
qed

lemma store_ok_sample: "store_ok sample_store"
  by (auto simp: store_ok_def sample_store_def split: if_splits)

lemma read_sample: "read_collection sample_store 4 = Some india_collection"
  by (simp add: read_collection_def read_feature_def load_props_def sample_store_def
      india_collection_def)

theorem enrichDataset_st_frame_witness:
  "store_ok sample_store \<and> read_collection sample_store 4 = Some india_collection \<and>
   (\<exists>h' c'. enrichDataset_st sample_store 4 = Some (h', c') \<and>
      read_collection h' 4 = Some india_collection \<and>
      read_collection h' c' = Some (enrichDataset india_collection))"
  using enrichDataset_st_frame[OF store_ok_sample read_sample] store_ok_sample read_sample
  by blast

text \<open>
  Claim C6, as stated, fails: the output of the transform shares an object with its
  input. In the sample store the geometry at address 0 belongs to the input feature and
  to the output feature.
\<close>

theorem enrichDataset_shares_geometry:
  "shared_addrs sample_store 4 = [0] \<and> cells sample_store 0 = Some (GeometryCell ())"
proof
  show "shared_addrs sample_store 4 = [0]"
    by code_simp
  show "cells sample_store 0 = Some (GeometryCell ())"
    by (simp add: sample_store_def)
qed

text \<open>
  Claim C5. The transform returns a collection for every collection: the output has as
  many features as the input, in the same order (the feature at each position is the
  enrichment of the input feature at that position, with its geometry and other
  members), and on every store in order that holds the collection the transform on the
  store returns, with the enriched collection as its result.
\<close>

theorem enrichDataset_total_ordered:
  "length (features (enrichDataset c)) = length (features c) \<and>
   map geometry (features (enrichDataset c)) = map geometry (features c) \<and>
   map feature.more (features (enrichDataset c)) = map feature.more (features c) \<and>
   (\<forall>i < length (features c). features (enrichDataset c) ! i = enrichFeature (features c ! i)) \<and>
   (\<forall>h a. store_ok h \<and> read_collection h a = Some c \<longrightarrow>
      (\<exists>h' a'. enrichDataset_st h a = Some (h', a') \<and>
         read_collection h' a' = Some (enrichDataset c)))"
proof -
  have "\<exists>h' a'. enrichDataset_st h a = Some (h', a') \<and>
         read_collection h' a' = Some (enrichDataset c)"
    if "store_ok h" and "read_collection h a = Some c" for h :: "('a, 'b, 'c, 'd) store" and a
    using enrichDataset_st_correct[OF that] by blast
  then show ?thesis
    by (simp add: enrichDataset_def enrichFeature_def comp_def)
qed

theorem enrichDataset_total_ordered_witness:
  "0 < length (features india_collection) \<and>
   features (enrichDataset india_collection) ! 0 = enrichFeature (features india_collection ! 0) \<and>
   store_ok sample_store \<and> read_collection sample_store 4 = Some india_collection \<and>
   (\<exists>h' a'. enrichDataset_st sample_store 4 = Some (h', a') \<and>
      read_collection h' a' = Some (enrichDataset india_collection))"
proof -
  have l: "0 < length (features india_collection)"
    by (simp add: india_collection_def)
  from enrichDataset_total_ordered[of india_collection] l store_ok_sample read_sample
  show ?thesis
    by blast
qed

section \<open>Properties of the load lifecycle\<close>

lemma render_same:
  "isMounted s' = isMounted s \<Longrightarrow> error s' = error s \<Longrightarrow> dataset s' = dataset s \<Longrightarrow>
   render s' = render s"
  by (auto simp: render_def split: option.splits list.splits)

lemma render_error:
  "isMounted s \<Longrightarrow> error s = Some msg \<Longrightarrow> msg \<noteq> [] \<Longrightarrow> render s = ErrorView msg"
  by (cases msg) (simp_all add: render_def)

lemma step_detached:
  assumes "progress s \<noteq> NotStarted" and "\<not> isSubscribed s"
  shows "progress (step s ev) \<noteq> NotStarted \<and> \<not> isSubscribed (step s ev) \<and>
         dataset (step s ev) = dataset s \<and> error (step s ev) = error s \<and>
         isMounted (step s ev) = isMounted s"
  using assms by (cases ev) (simp_all add: step_def loadDataset_def loadDataset_catch_def)

text \<open>
  Claim C2. Once the effect has run and its cleanup has set \<^verbatim>\<open>isSubscribed\<close> to false,
  no later event changes the dataset state or the error state, whether the fetch then
  succeeds, answers with a status that is not a success, or throws; the flag stays
  false and the view stays the same.
\<close>

theorem detached_no_transition:
  assumes "progress s \<noteq> NotStarted" and "\<not> isSubscribed s"
  shows "dataset (run s evs) = dataset s \<and> error (run s evs) = error s \<and>
         \<not> isSubscribed (run s evs) \<and> render (run s evs) = render s"
proof -
  have "progress (run s evs) \<noteq> NotStarted \<and> \<not> isSubscribed (run s evs) \<and>
        dataset (run s evs) = dataset s \<and> error (run s evs) = error s \<and>
        isMounted (run s evs) = isMounted s"
  proof (induction evs rule: rev_induct)
    case Nil
    then show ?case using assms by (simp add: run_def)
  next
    case (snoc ev evs)
    then show ?case
      using step_detached[of "run s evs" ev] by (simp add: run_def)
  qed
  then show ?thesis
    using render_same[of "run s evs" s] by blast
qed

theorem detached_no_transition_witness:
  "progress detached \<noteq> NotStarted \<and> \<not> isSubscribed detached \<and>
   dataset (run detached load_succeeds) = None \<and>
   error (run detached load_succeeds) = None \<and>
   dataset (run mounted load_succeeds) = Some (enrichDataset india_collection)"
proof -
  have p: "progress detached \<noteq> NotStarted"
    by (simp add: detached_def mounted_def step_def initial_def)
  have u: "\<not> isSubscribed detached"
    by (simp add: detached_def mounted_def step_def initial_def)
  have d: "dataset detached = None" "error detached = None"
    by (simp_all add: detached_def mounted_def step_def initial_def)
  have m: "dataset (run mounted load_succeeds) = Some (enrichDataset india_collection)"
    by (simp add: run_def mounted_def step_def loadDataset_def initial_def load_succeeds_def)
  from detached_no_transition[OF p u, of load_succeeds] p u d m
  show ?thesis by simp
qed

text \<open>
  Claim C3, as stated, fails: when \<^verbatim>\<open>fetch\<close> rejects with an \<^verbatim>\<open>Error\<close> whose message
  is the empty string, the error state is set to the empty string, and the shell, which
  tests \<^verbatim>\<open>if (error)\<close>, shows the loading placeholder.
\<close>

theorem error_with_empty_message:
  "error (step mounted rejected_empty) = Some [] \<and>
   render (step mounted rejected_empty) = LoadingView"
  by (simp add: mounted_def step_def loadDataset_def loadDataset_catch_def initial_def render_def rejected_empty_def)

lemma enrichDataset_throws_bodies:
  "enrichDataset_throws JsonNull"
  "enrichDataset_throws (JsonObject [])"
  "enrichDataset_throws (JsonArray xs)"
  "enrichDataset_throws (JsonString str)"
  "enrichDataset_throws (JsonObject [(''features'', JsonNull)])"
  "enrichDataset_throws (JsonObject [(''features'', JsonArray [JsonNull])])"
  "\<not> enrichDataset_throws (JsonObject [(''features'', JsonArray [])])"
  by (simp_all add: enrichDataset_throws_def json_member_def callback_throws_def)

lemma settle_json_throws:
  "enrichDataset_throws raw \<Longrightarrow> settle_json as_collection raw type_error = JsonUnprocessable type_error"
  by (simp add: settle_json_def)

text \<open>
  Claim C3, amended. For every failure of the load that the mounted and subscribed
  component is waiting for (\<^verbatim>\<open>fetch\<close> rejects, the response has a status that is not
  a success, \<^verbatim>\<open>response.json()\<close> rejects, or the body parses to a value on which
  \<^verbatim>\<open>enrichDataset\<close> throws, such as \<^verbatim>\<open>{}\<close> or \<^verbatim>\<open>null\<close>), the error state is set to the
  message of the failure: \<^verbatim>\<open>Failed to load dataset: \<close> followed by the status text for a
  status that is not a success, the message of a thrown \<^verbatim>\<open>Error\<close>, which for such a
  body is the \<^verbatim>\<open>TypeError\<close> of \<^verbatim>\<open>enrichDataset\<close>, and \<^verbatim>\<open>Unknown error while loading dataset\<close>
  for any other thrown value. The dataset state is not set. The message is empty only
  for a thrown \<^verbatim>\<open>Error\<close> with an empty message; whenever it is not empty the shell renders
  it as it is, instead of the map.
\<close>

theorem failure_to_error:
  assumes "isSubscribed s" and "isMounted s" and "awaited (progress s) ev"
    and "failure_message ev = Some msg"
  shows "error (step s ev) = Some msg \<and> dataset (step s ev) = dataset s \<and>
         progress (step s ev) = Finished \<and>
         (msg \<noteq> [] \<longrightarrow> render (step s ev) = ErrorView msg) \<and>
         (msg = [] \<longleftrightarrow>
            ev = FetchRejected (ErrorInstance []) \<or> ev = JsonRejected (ErrorInstance []) \<or>
            ev = JsonUnprocessable []) \<and>
         (enrichDataset_throws raw \<and> ev = settle_json as_collection raw type_error \<longrightarrow>
            msg = type_error)"
proof -
  have st: "error (step s ev) = Some msg \<and> dataset (step s ev) = dataset s \<and>
      progress (step s ev) = Finished \<and> isMounted (step s ev) \<and>
      (msg = [] \<longleftrightarrow>
         ev = FetchRejected (ErrorInstance []) \<or> ev = JsonRejected (ErrorInstance []) \<or>
         ev = JsonUnprocessable [])"
  proof (cases ev)
    case EffectsRun
    with assms show ?thesis by (simp add: awaited_def)
  next
    case (FetchRejected err)
    with assms show ?thesis
      by (cases err)
         (auto simp: awaited_def failure_message_def step_def loadDataset_def loadDataset_catch_def)
  next
    case (FetchResolved ok statusText)
    with assms show ?thesis
      by (auto simp: awaited_def failure_message_def step_def loadDataset_def loadDataset_catch_def
          split: if_splits)
  next
    case (JsonRejected err)
    with assms show ?thesis
      by (cases err)
         (auto simp: awaited_def failure_message_def step_def loadDataset_def loadDataset_catch_def)
  next
    case (JsonResolved raw)
    with assms show ?thesis by (simp add: failure_message_def)
  next
    case (JsonUnprocessable type_error)
    with assms show ?thesis
      by (auto simp: awaited_def failure_message_def step_def loadDataset_def loadDataset_catch_def)
  next
    case Cleanup
    with assms show ?thesis by (simp add: awaited_def)
  qed
  then have "msg \<noteq> [] \<longrightarrow> render (step s ev) = ErrorView msg"
    using render_error[of "step s ev" msg] by blast
  moreover have "msg = type_error"
    if "enrichDataset_throws raw" and "ev = settle_json as_collection raw type_error"
    using that assms(4) by (simp add: settle_json_def failure_message_def)
  ultimately show ?thesis
    using st by blast
qed

theorem failure_to_error_witness:
  "isSubscribed mounted \<and> isMounted mounted \<and> awaited (progress mounted) not_found \<and>
   failure_message not_found = Some ''Failed to load dataset: Not Found'' \<and>
   render (step mounted not_found) = ErrorView ''Failed to load dataset: Not Found'' \<and>
   isSubscribed awaiting_json \<and> isMounted awaiting_json \<and>
   enrichDataset_throws empty_object_body \<and> enrichDataset_throws null_body \<and>
   awaited (progress awaiting_json)
     (settle_json sample_reading empty_object_body undefined_map_message :: sample_event) \<and>
   failure_message
     (settle_json sample_reading empty_object_body undefined_map_message :: sample_event) =
       Some undefined_map_message \<and>
   error (step awaiting_json
     (settle_json sample_reading empty_object_body undefined_map_message :: sample_event)) =
       Some undefined_map_message \<and>
   render (step awaiting_json
     (settle_json sample_reading empty_object_body undefined_map_message :: sample_event)) =
       ErrorView undefined_map_message"
proof -
  have a: "isSubscribed mounted" "isMounted mounted"
    by (simp_all add: mounted_def step_def initial_def)
  have b: "awaited (progress mounted) not_found"
    by (simp add: mounted_def step_def initial_def awaited_def not_found_def)
  have c: "failure_message not_found = Some ''Failed to load dataset: Not Found''"
    by (simp add: failure_message_def not_found_def)
  have a': "isSubscribed awaiting_json" "isMounted awaiting_json"
    by (simp_all add: awaiting_json_def step_def loadDataset_def initial_def)
  have t: "enrichDataset_throws empty_object_body" "enrichDataset_throws null_body"
    by (simp_all add: empty_object_body_def null_body_def enrichDataset_throws_bodies)
  have ev: "(settle_json sample_reading empty_object_body undefined_map_message :: sample_event) =
      JsonUnprocessable undefined_map_message"
    using t(1) by (rule settle_json_throws)
  have b': "awaited (progress awaiting_json)
      (settle_json sample_reading empty_object_body undefined_map_message :: sample_event)"
    by (simp add: ev awaited_def awaiting_json_def step_def loadDataset_def initial_def)
  have c': "failure_message
      (settle_json sample_reading empty_object_body undefined_map_message :: sample_event) =
        Some undefined_map_message"
    by (simp add: ev failure_message_def)
  have ne: "undefined_map_message \<noteq> []"
    by (simp add: undefined_map_message_def)
  from failure_to_error[OF a b c, where raw = null_body and as_collection = sample_reading
      and type_error = undefined_map_message] have r1:
    "render (step mounted not_found) = ErrorView ''Failed to load dataset: Not Found''"
    by simp
  from failure_to_error[OF a' b' c', where raw = empty_object_body
      and as_collection = sample_reading and type_error = undefined_map_message] ne have r2:
    "error (step awaiting_json
       (settle_json sample_reading empty_object_body undefined_map_message :: sample_event)) =
         Some undefined_map_message"
    "render (step awaiting_json
       (settle_json sample_reading empty_object_body undefined_map_message :: sample_event)) =
         ErrorView undefined_map_message"
    by blast+
  from a b c a' t b' c' r1 r2 show ?thesis
    by blast
qed

end
